theory Spec2Isabelle
  imports Complex_Main
begin

section \<open>Numbers\<close>

text \<open>
  The board computes with JavaScript numbers. They are modelled as real numbers, with
  exact operations; where rounding decides a property, in the motion interpolator, the
  operations are rounded to doubles explicitly (section "Double arithmetic"). The only
  non-finite value that the functions below create from finite inputs is \<open>+Infinity\<close>,
  the initial value of \<open>minRatio\<close> and \<open>minDist\<close> in \<open>updateHeatmap\<close>; it is kept as a
  value of its own.
\<close>

datatype jsnum = Fin real | Infinity

text \<open>\<open>a < b\<close> on numbers that may be \<open>+Infinity\<close>.\<close>

fun jsLess :: "jsnum \<Rightarrow> jsnum \<Rightarrow> bool" where
  "jsLess (Fin a) (Fin b) = (a < b)"
| "jsLess (Fin a) Infinity = True"
| "jsLess Infinity b = False"

text \<open>
  \<open>a - c\<close>, \<open>a / c\<close> and \<open>a * c\<close> for a finite \<open>c\<close>; the source divides and multiplies
  by positive constants only (\<open>2.0\<close> and \<open>0.5\<close>), where \<open>+Infinity\<close> stays \<open>+Infinity\<close>.
\<close>

fun jsSub :: "jsnum \<Rightarrow> real \<Rightarrow> jsnum" where
  "jsSub (Fin a) c = Fin (a - c)"
| "jsSub Infinity c = Infinity"

fun jsDiv :: "jsnum \<Rightarrow> real \<Rightarrow> jsnum" where
  "jsDiv (Fin a) c = Fin (a / c)"
| "jsDiv Infinity c = Infinity"

fun jsMul :: "jsnum \<Rightarrow> real \<Rightarrow> jsnum" where
  "jsMul (Fin a) c = Fin (a * c)"
| "jsMul Infinity c = Infinity"

text \<open>\<open>Math.max(a, c)\<close> and \<open>Math.min(a, c)\<close> for a finite \<open>c\<close>.\<close>

fun jsMax :: "jsnum \<Rightarrow> real \<Rightarrow> jsnum" where
  "jsMax (Fin a) c = Fin (max a c)"
| "jsMax Infinity c = Infinity"

fun jsMin :: "jsnum \<Rightarrow> real \<Rightarrow> real" where
  "jsMin (Fin a) c = min a c"
| "jsMin Infinity c = c"

text \<open>\<open>a || b\<close> on numbers: \<open>b\<close> when \<open>a\<close> is zero, \<open>a\<close> otherwise.\<close>

definition jsOr :: "real \<Rightarrow> real \<Rightarrow> real" where
  "jsOr a b = (if a = 0 then b else a)"

text \<open>\<open>s.startsWith(pre)\<close>.\<close>

definition startsWith :: "string \<Rightarrow> string \<Rightarrow> bool" where
  "startsWith s pre = (take (length pre) s = pre)"

section \<open>Double arithmetic\<close>

text \<open>
  Where a property depends on rounding, an operation on JavaScript numbers is the
  exact operation followed by \<open>fl\<close>, the rounding of a real number to the nearest
  double (53 significant bits), ties to the even significand. The range of the exponent
  is not bounded: the board's coordinates and times are far from overflow and underflow.
  \<open>rne\<close> rounds to the nearest integer, ties to even, and \<open>ulp a\<close> is the spacing of the
  doubles in the binade of \<open>a > 0\<close>.
\<close>

definition rne :: "real \<Rightarrow> int" where
  "rne x =
    (let f = \<lfloor>x\<rfloor>; r = x - of_int f
     in if r < 1 / 2 then f else if 1 / 2 < r then f + 1 else if even f then f else f + 1)"

definition ulp :: "real \<Rightarrow> real" where
  "ulp a = 2 powr (of_int \<lfloor>log 2 a\<rfloor> - 52)"

definition fl :: "real \<Rightarrow> real" where
  "fl x = sgn x * (ulp \<bar>x\<bar> * of_int (rne (\<bar>x\<bar> / ulp \<bar>x\<bar>)))"

section \<open>Court and players\<close>

text \<open>
  The fields \<open>id\<close>, \<open>x\<close> and \<open>y\<close> of the interface \<open>Player\<close> are named \<open>pid\<close>, \<open>px\<close>
  and \<open>py\<close> here.
\<close>

record player =
  pid :: string
  label :: string
  px :: real
  py :: real
  color :: string
  defenseRadius :: real

definition COURT_WIDTH :: real where "COURT_WIDTH = 610"
definition COURT_HEIGHT :: real where "COURT_HEIGHT = 1340"
definition PLAYER_RADIUS :: real where "PLAYER_RADIUS = 15"
definition DEFENSE_RADIUS_NET :: real where "DEFENSE_RADIUS_NET = 120"
definition DEFENSE_RADIUS_BACK :: real where "DEFENSE_RADIUS_BACK = 240"

definition mkPlayer :: "string \<Rightarrow> real \<Rightarrow> real \<Rightarrow> string \<Rightarrow> player" where
  "mkPlayer i x y c = \<lparr>pid = i, label = i, px = x, py = y, color = c, defenseRadius = 0\<rparr>"

text \<open>The initial value of \<open>players\<close>.\<close>

definition players0 :: "player list" where
  "players0 =
    [mkPlayer ''A1'' 150 1050 ''bg-blue-500'', mkPlayer ''A2'' 460 1050 ''bg-blue-500'',
     mkPlayer ''B1'' 150 200 ''bg-red-500'', mkPlayer ''B2'' 460 200 ''bg-red-500'']"

section \<open>Defense radius\<close>

definition calculateDefenseRadius :: "real \<Rightarrow> real" where
  "calculateDefenseRadius y =
    (let NET_Y = 670;
         distFromNet = \<bar>y - NET_Y\<bar>;
         maxDist = 670;
         t = distFromNet / maxDist
     in DEFENSE_RADIUS_NET + t * (DEFENSE_RADIUS_BACK - DEFENSE_RADIUS_NET))"

text \<open>The first \<open>watchEffect\<close>: every player's radius is recomputed from its \<open>y\<close>.\<close>

definition updateRadii :: "player list \<Rightarrow> player list" where
  "updateRadii players =
    map (\<lambda>player. player\<lparr>defenseRadius := calculateDefenseRadius (py player)\<rparr>) players"

section \<open>Heatmap and furthest point\<close>

text \<open>
  The loop over \<open>teamA\<close> inside one grid cell: it carries \<open>minRatio\<close> and \<open>minDist\<close>.
\<close>

fun evalPlayers :: "player list \<Rightarrow> real \<Rightarrow> real \<Rightarrow> jsnum \<times> jsnum \<Rightarrow> jsnum \<times> jsnum" where
  "evalPlayers [] x y (minRatio, minDist) = (minRatio, minDist)"
| "evalPlayers (p # ps) x y (minRatio, minDist) =
    (let dx = x - px p;
         dy = y - py p;
         dist = sqrt (dx * dx + dy * dy);
         radius = jsOr (defenseRadius p) 1;
         ratio = dist / radius;
         minRatio' = (if jsLess (Fin ratio) minRatio then Fin ratio else minRatio);
         minDist' = (if jsLess (Fin dist) minDist then Fin dist else minDist)
     in evalPlayers ps x y (minRatio', minDist'))"

definition evaluate :: "player list \<Rightarrow> real \<Rightarrow> real \<Rightarrow> jsnum \<times> jsnum" where
  "evaluate teamA x y = evalPlayers teamA x y (Infinity, Infinity)"

text \<open>The two assignments to \<open>alpha\<close> inside the branch \<open>minRatio > 0.5\<close>.\<close>

definition heatAlpha :: "jsnum \<Rightarrow> real" where
  "heatAlpha minRatio =
    (let alpha = jsMul (jsDiv (jsSub minRatio 0.5) 2.0) 0.5
     in jsMin (jsMax alpha 0) 0.5)"

text \<open>
  The alpha of a cell. Where \<open>minRatio > 0.5\<close> fails the source computes no alpha and
  paints nothing on the cleared canvas; its comment names that case "Safe (Alpha 0)",
  which is the value given here.
\<close>

definition cellAlpha :: "jsnum \<Rightarrow> real" where
  "cellAlpha minRatio = (if jsLess (Fin 0.5) minRatio then heatAlpha minRatio else 0)"

text \<open>A painted cell: \<open>fillStyle = rgba(255, 0, 0, alpha)\<close> and the arguments of \<open>fillRect\<close>.\<close>

record rect =
  rAlpha :: real
  rX :: real
  rY :: real
  rW :: real
  rH :: real

record scan =
  maxDist :: jsnum
  maxPoint :: "real \<times> real"
  fills :: "rect list"

definition gridSize :: real where "gridSize = 10"

text \<open>The body of the two nested loops, after the loop over the team.\<close>

definition cellStep :: "player list \<Rightarrow> real \<Rightarrow> real \<Rightarrow> scan \<Rightarrow> scan" where
  "cellStep teamA x y s =
    (let (minRatio, minDist) = evaluate teamA x y;
         s1 = (if jsLess (maxDist s) minDist
               then s\<lparr>maxDist := minDist, maxPoint := (x, y)\<rparr> else s)
     in if jsLess (Fin 0.5) minRatio then
          (let alpha = heatAlpha minRatio
           in if alpha > 0.05
              then s1\<lparr>fills := fills s1 @
                     [\<lparr>rAlpha = alpha, rX = x - gridSize / 2, rY = y - gridSize / 2,
                       rW = gridSize, rH = gridSize\<rparr>]\<rparr>
              else s1)
        else s1)"

text \<open>
  The values a loop variable takes in \<open>for (v = from; v <= to; v += gridSize)\<close>, in
  order.
\<close>

function forRange :: "real \<Rightarrow> real \<Rightarrow> real list" where
  "forRange v to = (if v \<le> to then v # forRange (v + gridSize) to else [])"
  by pat_completeness auto
termination
proof (relation "measure (\<lambda>(v, to). nat (\<lfloor>to - v\<rfloor> + 1))")
  show "wf (measure (\<lambda>(v, to). nat (\<lfloor>to - v\<rfloor> + 1)))"
    by simp
next
  fix v to :: real
  assume le: "v \<le> to"
  have "to - (v + gridSize) = (to - v) - 10"
    by (simp add: gridSize_def)
  then have "\<lfloor>to - (v + gridSize)\<rfloor> = \<lfloor>to - v\<rfloor> - 10"
    by (simp only: floor_diff_numeral)
  moreover from le have "0 \<le> \<lfloor>to - v\<rfloor>"
    by simp
  ultimately show "((v + gridSize, to), (v, to)) \<in> measure (\<lambda>(v, to). nat (\<lfloor>to - v\<rfloor> + 1))"
    by simp
qed

declare forRange.simps [simp del]

definition scanRow :: "player list \<Rightarrow> scan \<Rightarrow> real \<Rightarrow> scan" where
  "scanRow teamA s y = foldl (\<lambda>s x. cellStep teamA x y s) s (forRange 0 COURT_WIDTH)"

definition scanGrid :: "player list \<Rightarrow> scan" where
  "scanGrid teamA =
    (let startY = 670; endY = 1340
     in foldl (scanRow teamA) \<lparr>maxDist = Fin 0, maxPoint = (0, 0), fills = []\<rparr>
          (forRange startY endY))"

text \<open>The centre of the furthest-point marker, when one is drawn.\<close>

definition marker :: "scan \<Rightarrow> (real \<times> real) option" where
  "marker s =
    (if jsLess (Fin 0) (maxDist s) then
       (let r = 30;
            drawX = max r (min (fst (maxPoint s)) (COURT_WIDTH - r));
            minDrawY = 670 + r;
            maxDrawY = COURT_HEIGHT - r;
            drawY = max minDrawY (min (snd (maxPoint s)) maxDrawY)
        in Some (drawX, drawY))
     else None)"

text \<open>
  \<open>updateHeatmap\<close> on an existing canvas: the cells painted, in order, and the marker.
\<close>

definition updateHeatmap :: "player list \<Rightarrow> rect list \<times> (real \<times> real) option" where
  "updateHeatmap players =
    (let teamA = filter (\<lambda>p. startsWith (pid p) ''A'') players;
         s = scanGrid teamA
     in (fills s, marker s))"

text \<open>
  The sample points in scan order, as the two loop headers give them: the rows from
  \<open>startY = 670\<close> to \<open>endY = 1340\<close>, each from \<open>x = 0\<close> to \<open>COURT_WIDTH\<close>.
\<close>

definition samples :: "(real \<times> real) list" where
  "samples = concat (map (\<lambda>y. map (\<lambda>x. (x, y)) (forRange 0 COURT_WIDTH)) (forRange 670 1340))"

section \<open>Auto-rotation\<close>

text \<open>The three tactical states: the target before the safety clamp.\<close>

definition tacticalTarget :: "player \<Rightarrow> real \<times> real" where
  "tacticalTarget movingPlayer =
    (let centerX = COURT_WIDTH / 2;
         NET_Y = 670;
         BACK_LINE_Y = 1340;
         CENTER_Y = (NET_Y + BACK_LINE_Y) / 2;
         ATTACK_THRESHOLD = 1200;
         NET_THRESHOLD = 900
     in if py movingPlayer > ATTACK_THRESHOLD then
          (let targetY = 920;
               dx = px movingPlayer - centerX;
               attackBias = 0.2;
               targetX = centerX + (dx * attackBias)
           in (targetX, targetY))
        else if py movingPlayer < NET_THRESHOLD then
          (let yDistFromCenter = CENTER_Y - py movingPlayer;
               netPivotFactor = 0.25;
               targetY = CENTER_Y + (yDistFromCenter * netPivotFactor);
               targetY = min targetY 1300;
               dx = px movingPlayer - centerX;
               coverageFactor = 0.2;
               targetX = centerX - (dx * coverageFactor)
           in (targetX, targetY))
        else
          (let yDiff = py movingPlayer - CENTER_Y;
               targetY = CENTER_Y - (yDiff * 0.5);
               dx = px movingPlayer - centerX;
               baseDefenseWidth = 260;
               compressionFactor = 0.8;
               targetOffset = baseDefenseWidth - (\<bar>dx\<bar> * compressionFactor);
               targetOffset = max 20 targetOffset;
               targetX = centerX - (sgn (jsOr dx 1) * targetOffset)
           in (targetX, targetY)))"

text \<open>"Clamping and Safety": the end of \<open>calculateOptimalPosition\<close>.\<close>

definition safetyClamp :: "real \<times> real \<Rightarrow> real \<times> real" where
  "safetyClamp t =
    (let targetX = fst t;
         targetY = snd t;
         NET_Y = 670;
         currentRadius = calculateDefenseRadius targetY;
         edgeMargin = max PLAYER_RADIUS (currentRadius * 0.5);
         targetX = max edgeMargin (min targetX (COURT_WIDTH - edgeMargin));
         targetY = max (NET_Y + edgeMargin) (min targetY (COURT_HEIGHT - edgeMargin))
     in (targetX, targetY))"

definition calculateOptimalPosition :: "player \<Rightarrow> player \<Rightarrow> real \<times> real" where
  "calculateOptimalPosition movingPlayer teammate = safetyClamp (tacticalTarget movingPlayer)"

section \<open>Animation\<close>

text \<open>
  What the closure \<open>animate\<close> captures when \<open>animatePlayerMove\<close> is called at time
  \<open>now\<close> (the value of \<open>performance.now()\<close>).
\<close>

record animation =
  startX :: real
  startY :: real
  startTime :: real
  targetX :: real
  targetY :: real
  duration :: real

definition animatePlayerMove :: "player \<Rightarrow> real \<Rightarrow> real \<Rightarrow> real \<Rightarrow> real \<Rightarrow> animation" where
  "animatePlayerMove player tx ty d now =
    \<lparr>startX = px player, startY = py player, startTime = now,
     targetX = tx, targetY = ty, duration = d\<rparr>"



text \<open>
  The same frame in double arithmetic, each operation rounded as JavaScript rounds it:
  \<open>progressDouble\<close> is the variable \<open>progress\<close>, \<open>easeOutQuad\<close> the variable
  \<open>easeProgress\<close> as a function of it. \<open>square\<close> stands for \<open>Math.pow(b, 2)\<close> as a function
  of \<open>b\<close>: ECMAScript leaves its rounding to the implementation, so it is a parameter;
  \<open>roundedSquare\<close> is the implementation by one rounded multiplication.
\<close>

definition roundedSquare :: "real \<Rightarrow> real" where
  "roundedSquare b = fl (b * b)"

definition easeOutQuad :: "(real \<Rightarrow> real) \<Rightarrow> real \<Rightarrow> real" where
  "easeOutQuad square progress = fl (1 - square (fl (1 - progress)))"

definition progressDouble :: "animation \<Rightarrow> real \<Rightarrow> real" where
  "progressDouble a currentTime =
    (let elapsed = fl (currentTime - startTime a)
     in min (fl (elapsed / duration a)) 1)"

definition animateDouble ::
  "(real \<Rightarrow> real) \<Rightarrow> animation \<Rightarrow> player \<Rightarrow> real \<Rightarrow> player \<times> bool" where
  "animateDouble square a player currentTime =
    (let progress = progressDouble a currentTime;
         e = easeOutQuad square progress
     in (player\<lparr>px := fl (startX a + fl (fl (targetX a - startX a) * e)),
                py := fl (startY a + fl (fl (targetY a - startY a) * e))\<rparr>,
         progress < 1))"

text \<open>\<open>toward a u v b\<close>: going from \<open>a\<close> to \<open>b\<close>, \<open>u\<close> comes first and \<open>v\<close> second.\<close>

definition toward :: "real \<Rightarrow> real \<Rightarrow> real \<Rightarrow> real \<Rightarrow> bool" where
  "toward a u v b = ((a \<le> u \<and> u \<le> v \<and> v \<le> b) \<or> (b \<le> v \<and> v \<le> u \<and> u \<le> a))"

section \<open>Dragging\<close>

text \<open>
  The \<open>move\<close> listener for the player found by its id: \<open>edx\<close> and \<open>edy\<close> are
  \<open>event.dx\<close> and \<open>event.dy\<close>, \<open>scaleFactor\<close> is \<open>scaleFactor.value\<close>.
\<close>

definition dragMove :: "player \<Rightarrow> real \<Rightarrow> real \<Rightarrow> real \<Rightarrow> player" where
  "dragMove player edx edy scaleFactor =
    (let newX = px player + (edx / scaleFactor);
         newY = py player + (edy / scaleFactor);
         r = PLAYER_RADIUS;
         NET_Y = 670;
         newX = max r (min newX (COURT_WIDTH - r));
         (minY, maxY) =
           (if startsWith (pid player) ''A'' then (NET_Y + r, COURT_HEIGHT - r)
            else (r, NET_Y - r));
         newY = max minY (min newY maxY)
     in player\<lparr>px := newX, py := newY\<rparr>)"


section \<open>Defense radius: values and monotonicity\<close>

lemma calculateDefenseRadius_eq: "calculateDefenseRadius y = 120 + \<bar>y - 670\<bar> * 12 / 67"
  by (simp add: calculateDefenseRadius_def DEFENSE_RADIUS_NET_def DEFENSE_RADIUS_BACK_def)

lemma calculateDefenseRadius_ge: "120 \<le> calculateDefenseRadius y"
  by (simp add: calculateDefenseRadius_eq)

lemma calculateDefenseRadius_le:
  assumes "\<bar>y - 670\<bar> \<le> 670"
  shows "calculateDefenseRadius y \<le> 240"
proof -
  have "\<bar>y - 670\<bar> * 12 / 67 \<le> 670 * 12 / 67"
    using assms by (simp add: divide_right_mono)
  then show ?thesis
    by (simp add: calculateDefenseRadius_eq)
qed

text \<open>
  Claim C3. The radius is 120 at the net (\<open>y = 670\<close>) and 240 at the back line
  (\<open>y = 1340\<close>), and it is monotonic non-decreasing in the distance from the net:
  whenever \<open>|y1 - 670| \<le> |y2 - 670|\<close>, the radius at \<open>y1\<close> is at most the radius at
  \<open>y2\<close>.
\<close>

theorem defense_radius_net_back_monotone:
  "calculateDefenseRadius 670 = 120 \<and> calculateDefenseRadius 1340 = 240 \<and>
   (\<forall>y1 y2. \<bar>y1 - 670\<bar> \<le> \<bar>y2 - 670\<bar> \<longrightarrow>
      calculateDefenseRadius y1 \<le> calculateDefenseRadius y2)"
  by (simp add: calculateDefenseRadius_eq)

theorem defense_radius_net_back_monotone_witness:
  "\<bar>(700::real) - 670\<bar> \<le> \<bar>1000 - 670\<bar> \<and>
   calculateDefenseRadius 700 \<le> calculateDefenseRadius 1000"
proof -
  have h: "\<bar>(700::real) - 670\<bar> \<le> \<bar>1000 - 670\<bar>"
    by simp
  from defense_radius_net_back_monotone
  have "\<bar>(700::real) - 670\<bar> \<le> \<bar>1000 - 670\<bar> \<longrightarrow>
        calculateDefenseRadius 700 \<le> calculateDefenseRadius 1000"
    by blast
  with h show ?thesis
    by blast
qed

section \<open>The drag clamp and the zero-radius fallback\<close>

lemma dragMove_py_range:
  "15 \<le> py (dragMove player edx edy scaleFactor) \<and>
   py (dragMove player edx edy scaleFactor) \<le> 1325"
  by (auto simp add: dragMove_def Let_def PLAYER_RADIUS_def COURT_HEIGHT_def)

text \<open>
  Claim C9. For every \<open>y\<close> in \<open>[0, 1340]\<close> the radius lies in \<open>[120, 240]\<close>. Hence for a
  player whose \<open>y\<close> is the one the drag clamp produced (with a positive display scale)
  and whose stored radius is \<open>calculateDefenseRadius\<close> of that \<open>y\<close>, the stored radius
  is not zero and \<open>defenseRadius || 1\<close> is the stored radius: the fallback \<open>1\<close> is never
  taken.
\<close>

theorem radius_in_range_fallback_unused:
  "(\<forall>y. 0 \<le> y \<and> y \<le> 1340 \<longrightarrow>
      120 \<le> calculateDefenseRadius y \<and> calculateDefenseRadius y \<le> 240) \<and>
   (\<forall>player edx edy scaleFactor. \<forall>p :: player.
      0 < scaleFactor \<and> py p = py (dragMove player edx edy scaleFactor) \<and>
      defenseRadius p = calculateDefenseRadius (py p) \<longrightarrow>
      0 \<le> py p \<and> py p \<le> 1340 \<and> defenseRadius p \<noteq> 0 \<and>
      jsOr (defenseRadius p) 1 = defenseRadius p)"
proof (intro conjI allI impI)
  fix y :: real
  assume "0 \<le> y \<and> y \<le> 1340"
  then have "\<bar>y - 670\<bar> \<le> 670"
    by linarith
  then show "calculateDefenseRadius y \<le> 240"
    by (rule calculateDefenseRadius_le)
next
  fix y :: real
  show "120 \<le> calculateDefenseRadius y"
    by (rule calculateDefenseRadius_ge)
next
  fix player edx edy scaleFactor and p :: player
  assume h: "0 < scaleFactor \<and> py p = py (dragMove player edx edy scaleFactor) \<and>
      defenseRadius p = calculateDefenseRadius (py p)"
  have r: "15 \<le> py p \<and> py p \<le> 1325"
    using h dragMove_py_range [of player edx edy scaleFactor] by simp
  show "0 \<le> py p"
    using r by simp
  show "py p \<le> 1340"
    using r by simp
  have "120 \<le> defenseRadius p"
    using h calculateDefenseRadius_ge [of "py p"] by simp
  then show "defenseRadius p \<noteq> 0"
    by simp
  then show "jsOr (defenseRadius p) 1 = defenseRadius p"
    by (simp add: jsOr_def)
qed

text \<open>
  The witness drags A1 far above the net: the clamp stops it at \<open>y = 685\<close>, and the
  radius stored for it is used as it is.
\<close>

theorem radius_in_range_fallback_unused_witness:
  "(0 \<le> (1005::real) \<and> (1005::real) \<le> 1340) \<and>
   120 \<le> calculateDefenseRadius 1005 \<and> calculateDefenseRadius 1005 \<le> 240 \<and>
   (0::real) < 1 \<and>
   py (hd (updateRadii [dragMove (hd players0) 0 (- 2000) 1])) =
     py (dragMove (hd players0) 0 (- 2000) 1) \<and>
   defenseRadius (hd (updateRadii [dragMove (hd players0) 0 (- 2000) 1])) =
     calculateDefenseRadius (py (hd (updateRadii [dragMove (hd players0) 0 (- 2000) 1]))) \<and>
   jsOr (defenseRadius (hd (updateRadii [dragMove (hd players0) 0 (- 2000) 1]))) 1 =
     defenseRadius (hd (updateRadii [dragMove (hd players0) 0 (- 2000) 1]))"
proof -
  let ?q = "dragMove (hd players0) 0 (- 2000) 1"
  let ?p = "hd (updateRadii [?q])"
  have a: "(0::real) \<le> 1005 \<and> (1005::real) \<le> 1340"
    by simp
  have b: "(0::real) < 1 \<and> py ?p = py ?q \<and> defenseRadius ?p = calculateDefenseRadius (py ?p)"
    by (simp add: updateRadii_def)
  from radius_in_range_fallback_unused
  have "0 \<le> (1005::real) \<and> (1005::real) \<le> 1340 \<longrightarrow>
          120 \<le> calculateDefenseRadius 1005 \<and> calculateDefenseRadius 1005 \<le> 240"
    and "(0::real) < 1 \<and> py ?p = py ?q \<and> defenseRadius ?p = calculateDefenseRadius (py ?p) \<longrightarrow>
          0 \<le> py ?p \<and> py ?p \<le> 1340 \<and> defenseRadius ?p \<noteq> 0 \<and>
          jsOr (defenseRadius ?p) 1 = defenseRadius ?p"
    by blast+
  with a b show ?thesis
    by blast
qed

section \<open>Targets of the tactical solver\<close>

lemma tacticalTarget_attack:
  "1200 < py mp \<Longrightarrow> tacticalTarget mp = (COURT_WIDTH / 2 + (px mp - COURT_WIDTH / 2) * 0.2, 920)"
  by (simp add: tacticalTarget_def Let_def)

lemma safetyClamp_inside:
  assumes m: "m = max PLAYER_RADIUS (calculateDefenseRadius ty * 0.5)"
    and x: "m \<le> tx" "tx \<le> COURT_WIDTH - m"
    and y: "670 + m \<le> ty" "ty \<le> COURT_HEIGHT - m"
  shows "safetyClamp (tx, ty) = (tx, ty)"
proof -
  have "max m (min tx (COURT_WIDTH - m)) = tx"
    using x by simp
  moreover have "max (670 + m) (min ty (COURT_HEIGHT - m)) = ty"
    using y by simp
  ultimately show ?thesis
    unfolding safetyClamp_def Let_def fst_conv snd_conv m [symmetric] by simp
qed

lemma margin_920: "max PLAYER_RADIUS (calculateDefenseRadius 920 * 0.5) = 5520 / 67"
  by (simp add: calculateDefenseRadius_eq PLAYER_RADIUS_def)

lemma attack_x: "COURT_WIDTH / 2 + (x - COURT_WIDTH / 2) * 0.2 = 244 + x / 5"
  by (simp add: COURT_WIDTH_def algebra_simps)

lemma safetyClamp_attack:
  assumes "0 \<le> x" "x \<le> 610"
  shows "safetyClamp (COURT_WIDTH / 2 + (x - COURT_WIDTH / 2) * 0.2, 920) =
         (COURT_WIDTH / 2 + (x - COURT_WIDTH / 2) * 0.2, 920)"
proof (rule safetyClamp_inside [where m = "5520 / 67"])
  show "5520 / 67 = max PLAYER_RADIUS (calculateDefenseRadius 920 * 0.5)"
    by (simp only: margin_920)
  show "5520 / 67 \<le> COURT_WIDTH / 2 + (x - COURT_WIDTH / 2) * 0.2"
    unfolding attack_x using assms by linarith
  show "COURT_WIDTH / 2 + (x - COURT_WIDTH / 2) * 0.2 \<le> COURT_WIDTH - 5520 / 67"
    unfolding attack_x unfolding COURT_WIDTH_def using assms by linarith
  show "670 + 5520 / 67 \<le> (920::real)"
    by simp
  show "(920::real) \<le> COURT_HEIGHT - 5520 / 67"
    by (simp add: COURT_HEIGHT_def)
qed

text \<open>
  Claim C6. For a moving player with \<open>y > 1200\<close> (ATTACK) and \<open>x\<close> on the court
  (\<open>0 \<le> x \<le> 610\<close>), the returned target is \<open>y = 920\<close> and
  \<open>x = centerX + (x - centerX) * 0.2\<close>, and the safety clamp leaves the target of the
  ATTACK branch as it is.
\<close>

theorem attack_target:
  "1200 < py mp \<and> 0 \<le> px mp \<and> px mp \<le> 610 \<longrightarrow>
     calculateOptimalPosition mp tm = (COURT_WIDTH / 2 + (px mp - COURT_WIDTH / 2) * 0.2, 920) \<and>
     safetyClamp (tacticalTarget mp) = tacticalTarget mp"
proof
  assume h: "1200 < py mp \<and> 0 \<le> px mp \<and> px mp \<le> 610"
  then have t: "tacticalTarget mp = (COURT_WIDTH / 2 + (px mp - COURT_WIDTH / 2) * 0.2, 920)"
    by (simp only: tacticalTarget_attack)
  have c: "safetyClamp (tacticalTarget mp) = tacticalTarget mp"
    unfolding t using h by (intro safetyClamp_attack) simp_all
  show "calculateOptimalPosition mp tm = (COURT_WIDTH / 2 + (px mp - COURT_WIDTH / 2) * 0.2, 920) \<and>
     safetyClamp (tacticalTarget mp) = tacticalTarget mp"
    using c t by (simp only: calculateOptimalPosition_def)
qed

text \<open>The witness: A1 at \<open>(150, 1250)\<close> sends its teammate to \<open>(274, 920)\<close>.\<close>

theorem attack_target_witness:
  "(1200 < py (mkPlayer ''A1'' 150 1250 ''bg-blue-500'') \<and>
    0 \<le> px (mkPlayer ''A1'' 150 1250 ''bg-blue-500'') \<and>
    px (mkPlayer ''A1'' 150 1250 ''bg-blue-500'') \<le> 610) \<and>
   calculateOptimalPosition (mkPlayer ''A1'' 150 1250 ''bg-blue-500'')
     (mkPlayer ''A2'' 460 1050 ''bg-blue-500'') = (274, 920)"
proof -
  have h: "1200 < py (mkPlayer ''A1'' 150 1250 ''bg-blue-500'') \<and>
    0 \<le> px (mkPlayer ''A1'' 150 1250 ''bg-blue-500'') \<and>
    px (mkPlayer ''A1'' 150 1250 ''bg-blue-500'') \<le> 610"
    by (simp add: mkPlayer_def)
  have x: "px (mkPlayer ''A1'' 150 1250 ''bg-blue-500'') = 150"
    by (simp add: mkPlayer_def)
  from h attack_target [of "mkPlayer ''A1'' 150 1250 ''bg-blue-500''"
      "mkPlayer ''A2'' 460 1050 ''bg-blue-500''"]
  have "calculateOptimalPosition (mkPlayer ''A1'' 150 1250 ''bg-blue-500'')
     (mkPlayer ''A2'' 460 1050 ''bg-blue-500'') =
     (COURT_WIDTH / 2 + (px (mkPlayer ''A1'' 150 1250 ''bg-blue-500'') - COURT_WIDTH / 2) * 0.2, 920)"
    by blast
  then have "calculateOptimalPosition (mkPlayer ''A1'' 150 1250 ''bg-blue-500'')
     (mkPlayer ''A2'' 460 1050 ''bg-blue-500'') = (274, 920)"
    unfolding x attack_x by simp
  with h show ?thesis
    by blast
qed

lemma tacticalTarget_centre:
  "py mp = 1005 \<Longrightarrow> px mp = COURT_WIDTH / 2 \<Longrightarrow> tacticalTarget mp = (COURT_WIDTH / 2 - 260, 1005)"
  by (simp add: tacticalTarget_def Let_def jsOr_def)

lemma calculateDefenseRadius_1005: "calculateDefenseRadius 1005 = 180"
  by (simp add: calculateDefenseRadius_eq)

lemma safetyClamp_centre: "safetyClamp (COURT_WIDTH / 2 - 260, 1005) = (90, 1005)"
  by (simp add: safetyClamp_def Let_def calculateDefenseRadius_1005 PLAYER_RADIUS_def
      COURT_WIDTH_def COURT_HEIGHT_def)

text \<open>
  Claim C2, amended. For a moving player at \<open>y = 1005\<close> with \<open>x = centerX\<close> the DEFENSE
  branch proposes the target \<open>x = centerX - 260 = 45\<close> (\<open>|dx| = 0\<close>, offset 260, sign
  \<open>+1\<close>), \<open>y = 1005\<close>; the safety clamp, whose margin there is half the radius 180,
  moves it to \<open>x = 90\<close>, so the returned target is \<open>(90, 1005)\<close>.
\<close>

theorem defense_centre_target:
  "py mp = 1005 \<and> px mp = COURT_WIDTH / 2 \<longrightarrow>
     tacticalTarget mp = (COURT_WIDTH / 2 - 260, 1005) \<and>
     calculateOptimalPosition mp tm = (90, 1005)"
  by (simp add: calculateOptimalPosition_def tacticalTarget_centre safetyClamp_centre)

text \<open>
  As stated, C2 fails: the returned \<open>x\<close> for the mover at \<open>(centerX, 1005)\<close> is not
  \<open>centerX - 260\<close>.
\<close>

theorem defense_centre_target_counterexample:
  "fst (calculateOptimalPosition (mkPlayer ''A1'' (COURT_WIDTH / 2) 1005 ''bg-blue-500'')
          (mkPlayer ''A2'' 460 1050 ''bg-blue-500'')) \<noteq> COURT_WIDTH / 2 - 260"
proof -
  have "tacticalTarget (mkPlayer ''A1'' (COURT_WIDTH / 2) 1005 ''bg-blue-500'') = (COURT_WIDTH / 2 - 260, 1005)"
    by (rule tacticalTarget_centre) (simp_all add: mkPlayer_def)
  then have "fst (calculateOptimalPosition (mkPlayer ''A1'' (COURT_WIDTH / 2) 1005 ''bg-blue-500'')
          (mkPlayer ''A2'' 460 1050 ''bg-blue-500'')) = 90"
    by (simp only: calculateOptimalPosition_def safetyClamp_centre fst_conv)
  then show ?thesis
    by (simp add: COURT_WIDTH_def)
qed

theorem defense_centre_target_witness:
  "(py (mkPlayer ''A1'' (COURT_WIDTH / 2) 1005 ''bg-blue-500'') = 1005 \<and>
    px (mkPlayer ''A1'' (COURT_WIDTH / 2) 1005 ''bg-blue-500'') = COURT_WIDTH / 2) \<and>
   tacticalTarget (mkPlayer ''A1'' (COURT_WIDTH / 2) 1005 ''bg-blue-500'') = (45, 1005) \<and>
   calculateOptimalPosition (mkPlayer ''A1'' (COURT_WIDTH / 2) 1005 ''bg-blue-500'')
     (mkPlayer ''A2'' 460 1050 ''bg-blue-500'') = (90, 1005)"
proof -
  have h: "py (mkPlayer ''A1'' (COURT_WIDTH / 2) 1005 ''bg-blue-500'') = 1005 \<and>
    px (mkPlayer ''A1'' (COURT_WIDTH / 2) 1005 ''bg-blue-500'') = COURT_WIDTH / 2"
    by (simp add: mkPlayer_def)
  have c: "COURT_WIDTH / 2 - 260 = 45"
    by (simp add: COURT_WIDTH_def)
  from h defense_centre_target [of "mkPlayer ''A1'' (COURT_WIDTH / 2) 1005 ''bg-blue-500''"
      "mkPlayer ''A2'' 460 1050 ''bg-blue-500''"]
  have "tacticalTarget (mkPlayer ''A1'' (COURT_WIDTH / 2) 1005 ''bg-blue-500'') =
          (COURT_WIDTH / 2 - 260, 1005) \<and>
        calculateOptimalPosition (mkPlayer ''A1'' (COURT_WIDTH / 2) 1005 ''bg-blue-500'')
          (mkPlayer ''A2'' 460 1050 ''bg-blue-500'') = (90, 1005)"
    by blast
  with h show ?thesis
    unfolding c by blast
qed

section \<open>Alpha of a heatmap cell\<close>

lemma heatAlpha_Fin: "heatAlpha (Fin r) = min (max (((r - 0.5) / 2.0) * 0.5) 0) 0.5"
  by (simp add: heatAlpha_def)

lemma heatAlpha_Infinity: "heatAlpha Infinity = 0.5"
  by (simp add: heatAlpha_def)

lemma heatAlpha_linear:
  assumes "0.5 \<le> r" "r \<le> 2.5"
  shows "heatAlpha (Fin r) = (r - 0.5) / 4"
proof -
  have e: "((r - 0.5) / 2.0) * 0.5 = (r - 0.5) / 4"
    by simp
  have "0 \<le> (r - 0.5) / 4" "(r - 0.5) / 4 \<le> 0.5"
    using assms by simp_all
  then show ?thesis
    unfolding heatAlpha_Fin e by simp
qed

lemma heatAlpha_saturated:
  assumes "2.5 \<le> r"
  shows "heatAlpha (Fin r) = 0.5"
proof -
  have e: "((r - 0.5) / 2.0) * 0.5 = (r - 0.5) / 4"
    by simp
  have "0.5 \<le> (r - 0.5) / 4"
    using assms by simp
  then show ?thesis
    unfolding heatAlpha_Fin e by simp
qed

lemma cellStep_fills:
  "fills (cellStep teamA x y s) =
     fills s @
     (if 0.05 < cellAlpha (fst (evaluate teamA x y))
      then [\<lparr>rAlpha = cellAlpha (fst (evaluate teamA x y)), rX = x - 5, rY = y - 5, rW = 10, rH = 10\<rparr>]
      else [])"
  by (simp add: cellStep_def Let_def cellAlpha_def gridSize_def split: prod.splits)

text \<open>
  Claim C5. The alpha of a cell is 0 when \<open>minRatio \<le> 0.5\<close>; for \<open>minRatio > 0.5\<close> it is
  \<open>clamp(((minRatio - 0.5) / 2.0) * 0.5, 0, 0.5)\<close>; it strictly increases with
  \<open>minRatio\<close> between 0.5 and 2.5 and is 0.5 for every \<open>minRatio \<ge> 2.5\<close>, also for
  \<open>+Infinity\<close>. Each sampled cell is painted with this alpha when it exceeds 0.05, and
  is not painted otherwise.
\<close>

theorem heat_alpha_profile:
  "(\<forall>r. r \<le> 0.5 \<longrightarrow> cellAlpha (Fin r) = 0) \<and>
   (\<forall>r. 0.5 < r \<longrightarrow> cellAlpha (Fin r) = min (max (((r - 0.5) / 2.0) * 0.5) 0) 0.5) \<and>
   (\<forall>r1 r2. 0.5 \<le> r1 \<and> r1 < r2 \<and> r2 \<le> 2.5 \<longrightarrow> cellAlpha (Fin r1) < cellAlpha (Fin r2)) \<and>
   (\<forall>r. 2.5 \<le> r \<longrightarrow> cellAlpha (Fin r) = 0.5) \<and>
   cellAlpha Infinity = 0.5 \<and>
   (\<forall>teamA x y s.
      fills (cellStep teamA x y s) =
        fills s @
        (if 0.05 < cellAlpha (fst (evaluate teamA x y))
         then [\<lparr>rAlpha = cellAlpha (fst (evaluate teamA x y)), rX = x - 5, rY = y - 5,
                 rW = 10, rH = 10\<rparr>]
         else []))"
proof (intro conjI allI impI)
  fix r :: real
  assume "r \<le> 0.5"
  then show "cellAlpha (Fin r) = 0"
    by (simp add: cellAlpha_def)
next
  fix r :: real
  assume "0.5 < r"
  then show "cellAlpha (Fin r) = min (max (((r - 0.5) / 2.0) * 0.5) 0) 0.5"
    by (simp only: cellAlpha_def jsLess.simps heatAlpha_Fin if_True)
next
  fix r1 r2 :: real
  assume h: "0.5 \<le> r1 \<and> r1 < r2 \<and> r2 \<le> 2.5"
  then have r2: "0.5 < r2" "0.5 \<le> r2" "r2 \<le> 2.5"
    by simp_all
  have a2: "cellAlpha (Fin r2) = (r2 - 0.5) / 4"
    using r2 by (simp only: cellAlpha_def jsLess.simps heatAlpha_linear if_True)
  have a1: "cellAlpha (Fin r1) = (r1 - 0.5) / 4"
  proof (cases "0.5 < r1")
    case True
    moreover have "r1 \<le> 2.5" "0.5 \<le> r1"
      using h by simp_all
    ultimately show ?thesis
      by (simp only: cellAlpha_def jsLess.simps heatAlpha_linear if_True)
  next
    case False
    with h have "r1 = 0.5"
      by simp
    then show ?thesis
      by (simp add: cellAlpha_def)
  qed
  show "cellAlpha (Fin r1) < cellAlpha (Fin r2)"
    unfolding a1 a2 using h by simp
next
  fix r :: real
  assume h: "2.5 \<le> r"
  then have "0.5 < r"
    by simp
  then show "cellAlpha (Fin r) = 0.5"
    using h by (simp only: cellAlpha_def jsLess.simps heatAlpha_saturated if_True)
next
  show "cellAlpha Infinity = 0.5"
    by (simp add: cellAlpha_def heatAlpha_Infinity)
next
  fix teamA x y s
  show "fills (cellStep teamA x y s) =
        fills s @
        (if 0.05 < cellAlpha (fst (evaluate teamA x y))
         then [\<lparr>rAlpha = cellAlpha (fst (evaluate teamA x y)), rX = x - 5, rY = y - 5,
                 rW = 10, rH = 10\<rparr>]
         else [])"
    by (rule cellStep_fills)
qed

theorem heat_alpha_profile_witness:
  "((0.3::real) \<le> 0.5 \<and> cellAlpha (Fin 0.3) = 0) \<and>
   ((0.5::real) < 1.5 \<and> cellAlpha (Fin 1.5) = 0.25) \<and>
   ((0.5::real) \<le> 1 \<and> (1::real) < 2 \<and> (2::real) \<le> 2.5 \<and> cellAlpha (Fin 1) < cellAlpha (Fin 2)) \<and>
   ((2.5::real) \<le> 7 \<and> cellAlpha (Fin 7) = 0.5)"
proof -
  from heat_alpha_profile
  have "(0.3::real) \<le> 0.5 \<longrightarrow> cellAlpha (Fin 0.3) = 0"
    and "(0.5::real) < 1.5 \<longrightarrow> cellAlpha (Fin 1.5) = min (max (((1.5 - 0.5) / 2.0) * 0.5) 0) 0.5"
    and "(0.5::real) \<le> 1 \<and> (1::real) < 2 \<and> (2::real) \<le> 2.5 \<longrightarrow> cellAlpha (Fin 1) < cellAlpha (Fin 2)"
    and "(2.5::real) \<le> 7 \<longrightarrow> cellAlpha (Fin 7) = 0.5"
    by blast+
  then show ?thesis
    by simp
qed

section \<open>The evaluator on a one-player team\<close>

lemma evaluate_single:
  "evaluate [p] x y =
     (Fin (sqrt ((x - px p) * (x - px p) + (y - py p) * (y - py p)) / jsOr (defenseRadius p) 1),
      Fin (sqrt ((x - px p) * (x - px p) + (y - py p) * (y - py p))))"
  by (simp add: evaluate_def Let_def)

text \<open>
  Claim C4, amended. For a query point \<open>(x, y)\<close> and a one-player team whose player has
  radius \<open>R\<close> and lies at Euclidean distance \<open>D\<close>, \<open>minRatio\<close> is \<open>D / R\<close> when
  \<open>R \<noteq> 0\<close> and \<open>D / 1\<close> when \<open>R = 0\<close>; this is \<open>D / max(R, 1)\<close> whenever \<open>R = 0\<close> or
  \<open>R \<ge> 1\<close>.
\<close>

theorem one_player_ratio:
  "fst (evaluate [p] x y) =
     Fin (sqrt ((x - px p) * (x - px p) + (y - py p) * (y - py p)) /
          (if defenseRadius p = 0 then 1 else defenseRadius p)) \<and>
   (defenseRadius p = 0 \<or> 1 \<le> defenseRadius p \<longrightarrow>
    fst (evaluate [p] x y) =
     Fin (sqrt ((x - px p) * (x - px p) + (y - py p) * (y - py p)) / max (defenseRadius p) 1))"
  by (auto simp add: evaluate_single jsOr_def)

lemma sqrt_25: "sqrt 25 = 5"
proof -
  have "sqrt (5 ^ 2) = (5::real)"
    by (simp only: real_sqrt_abs abs_numeral)
  then show ?thesis
    by simp
qed

text \<open>
  As stated, C4 fails for a radius strictly between 0 and 1: with \<open>R = 1/2\<close> and
  \<open>D = 5\<close> the ratio is 10, not \<open>5 / max(1/2, 1) = 5\<close>.
\<close>

theorem one_player_ratio_counterexample:
  "fst (evaluate [\<lparr>pid = ''A1'', label = ''A1'', px = 0, py = 0, color = ''bg-blue-500'',
                   defenseRadius = 1 / 2\<rparr>] 3 4) \<noteq>
   Fin (sqrt ((3 - 0) * (3 - 0) + (4 - 0) * (4 - 0)) / max (1 / 2) 1)"
  by (simp add: evaluate_single jsOr_def sqrt_25)

theorem one_player_ratio_witness:
  "((180::real) = 0 \<or> (1::real) \<le> 180) \<and>
   fst (evaluate [\<lparr>pid = ''A1'', label = ''A1'', px = 0, py = 0, color = ''bg-blue-500'',
                   defenseRadius = 180\<rparr>] 3 4) = Fin (1 / 36)"
  using one_player_ratio [of "\<lparr>pid = ''A1'', label = ''A1'', px = 0, py = 0, color = ''bg-blue-500'',
                   defenseRadius = 180\<rparr>" 3 4]
  by (simp add: sqrt_25)

section \<open>Rounding to doubles\<close>

lemma rne_bounds: "\<lfloor>x\<rfloor> \<le> rne x \<and> rne x \<le> \<lfloor>x\<rfloor> + 1"
  by (simp add: rne_def Let_def)

lemma rne_of_int: "rne (of_int n) = n"
  by (simp add: rne_def Let_def)

lemma rne_mono:
  assumes "x \<le> y"
  shows "rne x \<le> rne y"
proof (cases "\<lfloor>x\<rfloor> < \<lfloor>y\<rfloor>")
  case True
  have "rne x \<le> \<lfloor>x\<rfloor> + 1"
    using rne_bounds [of x] by simp
  also have "\<dots> \<le> \<lfloor>y\<rfloor>"
    using True by simp
  also have "\<dots> \<le> rne y"
    using rne_bounds [of y] by simp
  finally show ?thesis .
next
  case False
  moreover have "\<lfloor>x\<rfloor> \<le> \<lfloor>y\<rfloor>"
    using assms by (rule floor_mono)
  ultimately have eq: "\<lfloor>y\<rfloor> = \<lfloor>x\<rfloor>"
    by simp
  have "x - of_int \<lfloor>x\<rfloor> \<le> y - of_int \<lfloor>x\<rfloor>"
    using assms by simp
  then show ?thesis
    unfolding rne_def Let_def eq by auto
qed

lemma binade:
  assumes "0 < a"
  shows "2 powr of_int \<lfloor>log 2 a\<rfloor> \<le> a" and "a < 2 powr (of_int \<lfloor>log 2 a\<rfloor> + 1)"
  using floor_log_eq_powr_iff [of a 2 "\<lfloor>log 2 a\<rfloor>"] assms by simp_all

lemma ulp_pos: "0 < ulp a"
  by (simp add: ulp_def)

lemma ulp_low: "ulp a * 2 ^ 52 = 2 powr of_int \<lfloor>log 2 a\<rfloor>"
proof -
  have "(2::real) ^ 52 = 2 powr 52"
    by simp
  then have "ulp a * 2 ^ 52 = 2 powr (of_int \<lfloor>log 2 a\<rfloor> - 52) * 2 powr 52"
    by (simp only: ulp_def)
  also have "\<dots> = 2 powr (of_int \<lfloor>log 2 a\<rfloor> - 52 + 52)"
    by (simp only: powr_add)
  finally show ?thesis
    by simp
qed

lemma ulp_high: "ulp a * 2 ^ 53 = 2 powr (of_int \<lfloor>log 2 a\<rfloor> + 1)"
proof -
  have "ulp a * 2 ^ 53 = (ulp a * 2 ^ 52) * 2"
    by simp
  also have "\<dots> = 2 powr of_int \<lfloor>log 2 a\<rfloor> * 2 powr 1"
    by (simp only: ulp_low) simp
  also have "\<dots> = 2 powr (of_int \<lfloor>log 2 a\<rfloor> + 1)"
    by (simp only: powr_add)
  finally show ?thesis .
qed

lemma scaled_range:
  assumes "0 < a"
  shows "2 ^ 52 \<le> a / ulp a" and "a / ulp a < 2 ^ 53"
proof -
  have "ulp a * 2 ^ 52 \<le> a"
    unfolding ulp_low using assms by (rule binade)
  then show "2 ^ 52 \<le> a / ulp a"
    using ulp_pos [of a] by (simp add: pos_le_divide_eq mult.commute)
  have "a < ulp a * 2 ^ 53"
    unfolding ulp_high using assms by (rule binade)
  then show "a / ulp a < 2 ^ 53"
    using ulp_pos [of a] by (simp add: pos_divide_less_eq mult.commute)
qed

text \<open>The rounded magnitude stays in the closed binade of the argument.\<close>

lemma rounded_range:
  assumes "0 < a"
  shows "2 powr of_int \<lfloor>log 2 a\<rfloor> \<le> ulp a * of_int (rne (a / ulp a))"
    and "ulp a * of_int (rne (a / ulp a)) \<le> 2 powr (of_int \<lfloor>log 2 a\<rfloor> + 1)"
proof -
  have "rne (of_int (2 ^ 52)) \<le> rne (a / ulp a)"
    using scaled_range(1) [OF assms] by (intro rne_mono) simp
  then have "(2::int) ^ 52 \<le> rne (a / ulp a)"
    by (simp only: rne_of_int)
  then have "(of_int (2 ^ 52) :: real) \<le> of_int (rne (a / ulp a))"
    by (simp only: of_int_le_iff)
  then have "(2::real) ^ 52 \<le> of_int (rne (a / ulp a))"
    by simp
  then have "ulp a * 2 ^ 52 \<le> ulp a * of_int (rne (a / ulp a))"
    using ulp_pos [of a] by (simp only: mult_le_cancel_left_pos)
  then show "2 powr of_int \<lfloor>log 2 a\<rfloor> \<le> ulp a * of_int (rne (a / ulp a))"
    by (simp only: ulp_low)
  have "rne (a / ulp a) \<le> rne (of_int (2 ^ 53))"
    using scaled_range(2) [OF assms] by (intro rne_mono) simp
  then have "rne (a / ulp a) \<le> (2::int) ^ 53"
    by (simp only: rne_of_int)
  then have "(of_int (rne (a / ulp a)) :: real) \<le> of_int (2 ^ 53)"
    by (simp only: of_int_le_iff)
  then have "of_int (rne (a / ulp a)) \<le> (2::real) ^ 53"
    by simp
  then have "ulp a * of_int (rne (a / ulp a)) \<le> ulp a * 2 ^ 53"
    using ulp_pos [of a] by (simp only: mult_le_cancel_left_pos)
  then show "ulp a * of_int (rne (a / ulp a)) \<le> 2 powr (of_int \<lfloor>log 2 a\<rfloor> + 1)"
    by (simp only: ulp_high)
qed

lemma fl_of_pos: "0 < x \<Longrightarrow> fl x = ulp x * of_int (rne (x / ulp x))"
  by (simp add: fl_def)

lemma fl_0: "fl 0 = 0"
  by (simp add: fl_def)

lemma fl_minus: "fl (- x) = - fl x"
  by (simp add: fl_def sgn_minus)

lemma fl_pos: "0 < x \<Longrightarrow> 0 < fl x"
proof -
  assume x: "0 < x"
  have "0 < (2::real) powr of_int \<lfloor>log 2 x\<rfloor>"
    by simp
  also have "\<dots> \<le> fl x"
    unfolding fl_of_pos [OF x] using x by (rule rounded_range)
  finally show ?thesis .
qed

lemma fl_mono_pos:
  assumes "0 < x" "x \<le> y"
  shows "fl x \<le> fl y"
proof -
  have y: "0 < y"
    using assms by simp
  have le: "\<lfloor>log 2 x\<rfloor> \<le> \<lfloor>log 2 y\<rfloor>"
    using assms by (intro floor_mono) simp
  show ?thesis
  proof (cases "\<lfloor>log 2 x\<rfloor> = \<lfloor>log 2 y\<rfloor>")
    case True
    then have u: "ulp y = ulp x"
      by (simp add: ulp_def)
    have "x / ulp x \<le> y / ulp x"
      using assms ulp_pos [of x] by (simp add: divide_right_mono)
    then have "rne (x / ulp x) \<le> rne (y / ulp x)"
      by (rule rne_mono)
    then have "ulp x * of_int (rne (x / ulp x)) \<le> ulp x * of_int (rne (y / ulp x))"
      using ulp_pos [of x] by simp
    then show ?thesis
      unfolding fl_of_pos [OF assms(1)] fl_of_pos [OF y] u .
  next
    case False
    with le have "\<lfloor>log 2 x\<rfloor> + 1 \<le> \<lfloor>log 2 y\<rfloor>"
      by simp
    then have "(of_int \<lfloor>log 2 x\<rfloor> + 1 :: real) \<le> of_int \<lfloor>log 2 y\<rfloor>"
      by linarith
    then have p: "(2::real) powr (of_int \<lfloor>log 2 x\<rfloor> + 1) \<le> 2 powr of_int \<lfloor>log 2 y\<rfloor>"
      by (simp only: powr_le_cancel_iff) 
    have "fl x \<le> 2 powr (of_int \<lfloor>log 2 x\<rfloor> + 1)"
      unfolding fl_of_pos [OF assms(1)] using assms(1) by (rule rounded_range)
    also note p
    also have "2 powr of_int \<lfloor>log 2 y\<rfloor> \<le> fl y"
      unfolding fl_of_pos [OF y] using y by (rule rounded_range)
    finally show ?thesis .
  qed
qed

lemma fl_mono:
  assumes "x \<le> y"
  shows "fl x \<le> fl y"
proof -
  consider "0 < x" | "x \<le> 0" "0 \<le> y" | "y < 0"
    using assms by linarith
  then show ?thesis
  proof cases
    case 1
    then show ?thesis
      using assms by (rule fl_mono_pos)
  next
    case 2
    have "fl x \<le> 0"
    proof (cases "x = 0")
      case True
      then show ?thesis by (simp add: fl_0)
    next
      case False
      with 2 have "0 < fl (- x)"
        by (intro fl_pos) simp
      then show ?thesis
        by (simp add: fl_minus)
    qed
    moreover have "0 \<le> fl y"
    proof (cases "y = 0")
      case True
      then show ?thesis by (simp add: fl_0)
    next
      case False
      with 2 have "0 < fl y"
        by (intro fl_pos) simp
      then show ?thesis by simp
    qed
    ultimately show ?thesis
      by simp
  next
    case 3
    then have "fl (- y) \<le> fl (- x)"
      using assms by (intro fl_mono_pos) simp_all
    then show ?thesis
      by (simp add: fl_minus)
  qed
qed

lemma fl_scaled:
  assumes "2 ^ 52 \<le> x * 2 ^ k" "x * 2 ^ k < 2 ^ 53"
  shows "fl x = of_int (rne (x * 2 ^ k)) / 2 ^ k"
proof -
  have x: "0 < x"
  proof (rule ccontr)
    assume "\<not> 0 < x"
    then have "x * 2 ^ k \<le> 0"
      by (simp add: mult_le_0_iff)
    with assms(1) show False
      by (smt (verit) zero_less_power)
  qed
  have e: "\<lfloor>log 2 x\<rfloor> = 52 - int k"
  proof -
    have "(2::real) powr of_int (52 - int k) = 2 ^ 52 / 2 ^ k"
      by (simp add: powr_diff powr_realpow)
    moreover have "(2::real) powr (of_int (52 - int k) + 1) = 2 ^ 53 / 2 ^ k"
      by (simp add: powr_diff powr_add powr_realpow)
    moreover have "2 ^ 52 / 2 ^ k \<le> x" "x < 2 ^ 53 / 2 ^ k"
      using assms by (simp_all add: pos_divide_le_eq pos_less_divide_eq)
    ultimately show ?thesis
      using floor_log_eq_powr_iff [of x 2 "52 - int k"] x by simp
  qed
  have u: "ulp x = 1 / 2 ^ k"
    by (simp add: ulp_def e powr_minus powr_realpow inverse_eq_divide)
  show ?thesis
    by (simp add: fl_of_pos [OF x] u)
qed

lemma fl_1: "fl 1 = 1"
  using fl_scaled [of 1 52] by (simp add: rne_def)

section \<open>The motion interpolator in exact arithmetic\<close>







section \<open>The motion interpolator in double arithmetic\<close>

lemma fl_nonneg: "0 \<le> x \<Longrightarrow> 0 \<le> fl x"
  using fl_mono [of 0 x] by (simp add: fl_0)

lemma fl_le_1: "x \<le> 1 \<Longrightarrow> fl x \<le> 1"
  using fl_mono [of x 1] by (simp add: fl_1)

lemma fl_ge_1: "1 \<le> x \<Longrightarrow> 1 \<le> fl x"
  using fl_mono [of 1 x] by (simp add: fl_1)

lemma roundedSquare_0: "roundedSquare 0 = 0"
  by (simp add: roundedSquare_def fl_0)

lemma roundedSquare_1: "roundedSquare 1 = 1"
  by (simp add: roundedSquare_def fl_1)

lemma roundedSquare_mono: "0 \<le> b \<and> b \<le> c \<longrightarrow> roundedSquare b \<le> roundedSquare c"
proof
  assume "0 \<le> b \<and> b \<le> c"
  then have "b * b \<le> c * c"
    by (intro mult_mono) simp_all
  then show "roundedSquare b \<le> roundedSquare c"
    unfolding roundedSquare_def by (rule fl_mono)
qed

lemma easeOutQuad_0: "square 1 = 1 \<Longrightarrow> easeOutQuad square 0 = 0"
  by (simp add: easeOutQuad_def fl_1 fl_0)

lemma easeOutQuad_1: "square 0 = 0 \<Longrightarrow> easeOutQuad square 1 = 1"
  by (simp add: easeOutQuad_def fl_1 fl_0)

lemma easeOutQuad_mono:
  assumes m: "\<forall>b c. 0 \<le> b \<and> b \<le> c \<longrightarrow> square b \<le> square c"
    and "p \<le> q" "q \<le> 1"
  shows "easeOutQuad square p \<le> easeOutQuad square q"
proof -
  have "0 \<le> fl (1 - q) \<and> fl (1 - q) \<le> fl (1 - p)"
    using assms(2,3) by (simp add: fl_nonneg fl_mono)
  then have "square (fl (1 - q)) \<le> square (fl (1 - p))"
    using m by blast
  then have "1 - square (fl (1 - p)) \<le> 1 - square (fl (1 - q))"
    by simp
  then show ?thesis
    unfolding easeOutQuad_def by (rule fl_mono)
qed

lemma easeOutQuad_unit:
  assumes m: "\<forall>b c. 0 \<le> b \<and> b \<le> c \<longrightarrow> square b \<le> square c"
    and z: "square 0 = 0" and u: "square 1 = 1"
    and "0 \<le> p" "p \<le> 1"
  shows "0 \<le> easeOutQuad square p \<and> easeOutQuad square p \<le> 1"
  using easeOutQuad_mono [OF m, of 0 p] easeOutQuad_mono [OF m, of p 1] assms(4,5)
  by (simp add: easeOutQuad_0 [of square, OF u] easeOutQuad_1 [of square, OF z])

lemma progressDouble_at:
  "progressDouble (animatePlayerMove player tx ty d now) t = min (fl (fl (t - now) / d)) 1"
  by (simp add: progressDouble_def animatePlayerMove_def)

lemma progressDouble_mono:
  assumes "0 < d" "t1 \<le> t2"
  shows "progressDouble (animatePlayerMove player tx ty d now) t1 \<le>
         progressDouble (animatePlayerMove player tx ty d now) t2"
proof -
  have "fl (t1 - now) \<le> fl (t2 - now)"
    using assms by (intro fl_mono) simp
  then have "fl (t1 - now) / d \<le> fl (t2 - now) / d"
    using assms by (simp add: divide_right_mono)
  then have "fl (fl (t1 - now) / d) \<le> fl (fl (t2 - now) / d)"
    by (rule fl_mono)
  then show ?thesis
    unfolding progressDouble_at by simp
qed

lemma progressDouble_start: "progressDouble (animatePlayerMove player tx ty d now) now = 0"
  by (simp add: progressDouble_at fl_0)

lemma progressDouble_le_1: "progressDouble (animatePlayerMove player tx ty d now) t \<le> 1"
  by (simp add: progressDouble_at)

lemma progressDouble_nonneg:
  assumes "0 < d" "now \<le> t"
  shows "0 \<le> progressDouble (animatePlayerMove player tx ty d now) t"
  using progressDouble_mono [OF assms, of player tx ty now] by (simp add: progressDouble_start)

lemma progressDouble_done:
  assumes "0 < d" "d \<le> fl (t - now)"
  shows "progressDouble (animatePlayerMove player tx ty d now) t = 1"
proof -
  have "1 \<le> fl (t - now) / d"
    using assms by simp
  then have "1 \<le> fl (fl (t - now) / d)"
    by (rule fl_ge_1)
  then show ?thesis
    unfolding progressDouble_at by simp
qed

lemma animateDouble_px:
  "px (fst (animateDouble square (animatePlayerMove player tx ty d now) q t)) =
     fl (px player + fl (fl (tx - px player) *
       easeOutQuad square (progressDouble (animatePlayerMove player tx ty d now) t)))"
  by (simp add: animateDouble_def Let_def animatePlayerMove_def)

lemma animateDouble_py:
  "py (fst (animateDouble square (animatePlayerMove player tx ty d now) q t)) =
     fl (py player + fl (fl (ty - py player) *
       easeOutQuad square (progressDouble (animatePlayerMove player tx ty d now) t)))"
  by (simp add: animateDouble_def Let_def animatePlayerMove_def)

lemma animateDouble_again:
  "snd (animateDouble square (animatePlayerMove player tx ty d now) q t) =
     (progressDouble (animatePlayerMove player tx ty d now) t < 1)"
  by (simp add: animateDouble_def Let_def)

lemma rounded_lerp_toward:
  assumes s: "fl s = s" and k: "0 \<le> j" "j \<le> k" "k \<le> 1"
  shows "toward s (fl (s + fl (D * j))) (fl (s + fl (D * k))) (fl (s + fl (D * 1)))"
proof (cases "0 \<le> D")
  case True
  have "D * 0 \<le> D * j" "D * j \<le> D * k" "D * k \<le> D * 1"
    using True k by (intro mult_left_mono; simp)+
  then have "fl (D * 0) \<le> fl (D * j)" "fl (D * j) \<le> fl (D * k)" "fl (D * k) \<le> fl (D * 1)"
    by (simp_all only: fl_mono)
  then have "s + 0 \<le> s + fl (D * j)" "s + fl (D * j) \<le> s + fl (D * k)"
      "s + fl (D * k) \<le> s + fl (D * 1)"
    by (simp_all add: fl_0)
  then have "fl (s + 0) \<le> fl (s + fl (D * j))" "fl (s + fl (D * j)) \<le> fl (s + fl (D * k))"
      "fl (s + fl (D * k)) \<le> fl (s + fl (D * 1))"
    by (simp_all only: fl_mono)
  then show ?thesis
    unfolding toward_def by (simp add: s)
next
  case False
  then have n: "D \<le> 0"
    by simp
  have "D * j \<le> D * 0" "D * k \<le> D * j" "D * 1 \<le> D * k"
    using n k by (intro mult_left_mono_neg; simp)+
  then have "fl (D * j) \<le> fl (D * 0)" "fl (D * k) \<le> fl (D * j)" "fl (D * 1) \<le> fl (D * k)"
    by (simp_all only: fl_mono)
  then have "s + fl (D * j) \<le> s + 0" "s + fl (D * k) \<le> s + fl (D * j)"
      "s + fl (D * 1) \<le> s + fl (D * k)"
    by (simp_all add: fl_0)
  then have "fl (s + fl (D * j)) \<le> fl (s + 0)" "fl (s + fl (D * k)) \<le> fl (s + fl (D * j))"
      "fl (s + fl (D * 1)) \<le> fl (s + fl (D * k))"
    by (simp_all only: fl_mono)
  then show ?thesis
    unfolding toward_def by (simp add: s)
qed

lemma rounded_lerp_start: "fl s = s \<Longrightarrow> fl (s + fl (D * 0)) = s"
  by (simp add: fl_0)

lemma rounded_lerp_exact:
  assumes "fl (t - s) = t - s" "fl t = t"
  shows "fl (s + fl (fl (t - s) * 1)) = t"
  using assms by simp

lemma fl_100: "fl 100 = 100"
  using fl_scaled [of 100 46] by (simp add: rne_def)

lemma fl_200: "fl 200 = 200"
  using fl_scaled [of 200 45] by (simp add: rne_def)

lemma fl_300: "fl 300 = 300"
  using fl_scaled [of 300 44] by (simp add: rne_def)

lemma fl_400: "fl 400 = 400"
  using fl_scaled [of 400 44] by (simp add: rne_def)

lemma fl_1000: "fl 1000 = 1000"
  using fl_scaled [of 1000 43] by (simp add: rne_def)

lemma fl_1100: "fl 1100 = 1100"
  using fl_scaled [of 1100 42] by (simp add: rne_def)

text \<open>
  Claim C8, amended. In the double arithmetic of the code, for a start position that is
  a pair of doubles, any target, a positive duration, and any \<open>Math.pow(b, 2)\<close> that is
  exact at \<open>b = 0\<close> and \<open>b = 1\<close> and non-decreasing in \<open>b \<ge> 0\<close>: each coordinate of a frame
  is \<open>start + (target - start) * eased\<close>, every operation rounded, where the eased factor
  is \<open>1 - Math.pow(1 - p, 2)\<close> with \<open>p = min(elapsed / duration, 1)\<close> and
  \<open>elapsed = currentTime - startTime\<close>; the position at the start time (elapsed 0) is
  the start; for every frame whose elapsed time is at least the duration the eased
  factor is exactly 1, no further frame is requested and the position is the rounded
  \<open>start + (target - start) * 1\<close>, which is the target when \<open>target - start\<close> is computed
  without rounding and the target is a double, and can miss the target otherwise; for
  frames not earlier than the start time the eased factor lies in \<open>[0, 1]\<close>; the eased
  factor is non-decreasing in the time of the frame; and for frame times
  \<open>startTime \<le> t1 \<le> t2\<close> each coordinate at \<open>t1\<close> and at \<open>t2\<close> lies between the start and
  that final position, the one at \<open>t2\<close> on the final position's side of the one at \<open>t1\<close>.
\<close>

theorem ease_out_motion:
  "0 < d \<and> fl (px player) = px player \<and> fl (py player) = py player \<and>
   square 0 = 0 \<and> square 1 = 1 \<and> (\<forall>b c. 0 \<le> b \<and> b \<le> c \<longrightarrow> square b \<le> square c) \<longrightarrow>
   (let a = animatePlayerMove player tx ty d now;
        P = (\<lambda>t. min (fl (fl (t - now) / d)) 1);
        E = (\<lambda>t. fl (1 - square (fl (1 - P t))));
        X = (\<lambda>t. px (fst (animateDouble square a q t)));
        Y = (\<lambda>t. py (fst (animateDouble square a q t)));
        endX = fl (px player + fl (fl (tx - px player) * 1));
        endY = fl (py player + fl (fl (ty - py player) * 1))
    in (\<forall>t. X t = fl (px player + fl (fl (tx - px player) * E t)) \<and>
            Y t = fl (py player + fl (fl (ty - py player) * E t))) \<and>
       X now = px player \<and> Y now = py player \<and>
       (\<forall>t. d \<le> fl (t - now) \<longrightarrow>
            E t = 1 \<and> X t = endX \<and> Y t = endY \<and> \<not> snd (animateDouble square a q t)) \<and>
       (fl (tx - px player) = tx - px player \<and> fl tx = tx \<longrightarrow> endX = tx) \<and>
       (fl (ty - py player) = ty - py player \<and> fl ty = ty \<longrightarrow> endY = ty) \<and>
       (\<forall>t. now \<le> t \<longrightarrow> 0 \<le> E t \<and> E t \<le> 1) \<and>
       (\<forall>t1 t2. t1 \<le> t2 \<longrightarrow> E t1 \<le> E t2) \<and>
       (\<forall>t1 t2. now \<le> t1 \<and> t1 \<le> t2 \<longrightarrow>
            toward (px player) (X t1) (X t2) endX \<and> toward (py player) (Y t1) (Y t2) endY))"
proof
  assume h: "0 < d \<and> fl (px player) = px player \<and> fl (py player) = py player \<and>
   square 0 = 0 \<and> square 1 = 1 \<and> (\<forall>b c. 0 \<le> b \<and> b \<le> c \<longrightarrow> square b \<le> square c)"
  then have d: "0 < d" and sx: "fl (px player) = px player" and sy: "fl (py player) = py player"
    and z: "square 0 = 0" and u: "square 1 = 1"
    and m: "\<forall>b c. 0 \<le> b \<and> b \<le> c \<longrightarrow> square b \<le> square c"
    by simp_all
  define a where "a = animatePlayerMove player tx ty d now"
  define P where "P = (\<lambda>t. min (fl (fl (t - now) / d)) 1)"
  define E where "E = (\<lambda>t. fl (1 - square (fl (1 - P t))))"
  define X where "X = (\<lambda>t. px (fst (animateDouble square a q t)))"
  define Y where "Y = (\<lambda>t. py (fst (animateDouble square a q t)))"
  define endX where "endX = fl (px player + fl (fl (tx - px player) * 1))"
  define endY where "endY = fl (py player + fl (fl (ty - py player) * 1))"
  have P: "P t = progressDouble a t" for t
    by (simp add: P_def a_def progressDouble_at)
  have E: "E t = easeOutQuad square (P t)" for t
    by (simp add: E_def easeOutQuad_def)
  have XY: "X t = fl (px player + fl (fl (tx - px player) * E t)) \<and>
            Y t = fl (py player + fl (fl (ty - py player) * E t))" for t
    unfolding X_def Y_def a_def animateDouble_px animateDouble_py E P a_def by simp
  have Pnow: "P now = 0"
    by (simp add: P a_def progressDouble_start)
  have Enow: "E now = 0"
    by (simp add: E Pnow easeOutQuad_0 [of square, OF u])
  have start: "X now = px player \<and> Y now = py player"
    by (simp add: XY Enow fl_0 sx sy)
  have fin: "E t = 1 \<and> X t = endX \<and> Y t = endY \<and> \<not> snd (animateDouble square a q t)"
    if "d \<le> fl (t - now)" for t
  proof -
    have p: "P t = 1"
      unfolding P a_def using d that by (rule progressDouble_done)
    then have e: "E t = 1"
      by (simp add: E easeOutQuad_1 [of square, OF z])
    have "\<not> snd (animateDouble square a q t)"
      using p by (simp add: a_def animateDouble_again P [symmetric, unfolded a_def])
    then show ?thesis
      using e by (simp add: XY endX_def endY_def)
  qed
  have exX: "endX = tx" if "fl (tx - px player) = tx - px player \<and> fl tx = tx"
    unfolding endX_def using that by (intro rounded_lerp_exact) simp_all
  have exY: "endY = ty" if "fl (ty - py player) = ty - py player \<and> fl ty = ty"
    unfolding endY_def using that by (intro rounded_lerp_exact) simp_all
  have Pmono: "P t1 \<le> P t2" if "t1 \<le> t2" for t1 t2
    unfolding P a_def using d that by (rule progressDouble_mono)
  have Ple: "P t \<le> 1" for t
    by (simp add: P_def)
  have Pge: "0 \<le> P t" if "now \<le> t" for t
    using Pmono [OF that] by (simp add: Pnow)
  have rng: "0 \<le> E t \<and> E t \<le> 1" if "now \<le> t" for t
    unfolding E using m z u Pge [OF that] Ple by (rule easeOutQuad_unit)
  have mono: "E t1 \<le> E t2" if "t1 \<le> t2" for t1 t2
    unfolding E using m Pmono [OF that] Ple by (rule easeOutQuad_mono)
  have tow: "toward (px player) (X t1) (X t2) endX \<and> toward (py player) (Y t1) (Y t2) endY"
    if "now \<le> t1 \<and> t1 \<le> t2" for t1 t2
  proof -
    have j: "0 \<le> E t1"
      using that rng [of t1] by simp
    have jk: "E t1 \<le> E t2"
      using that by (simp add: mono)
    have k: "E t2 \<le> 1"
      using that rng [of t2] by simp
    have "toward (px player) (X t1) (X t2) endX"
      unfolding XY [THEN conjunct1] endX_def using sx j jk k by (rule rounded_lerp_toward)
    moreover have "toward (py player) (Y t1) (Y t2) endY"
      unfolding XY [THEN conjunct2] endY_def using sy j jk k by (rule rounded_lerp_toward)
    ultimately show ?thesis ..
  qed
  have "(\<forall>t. X t = fl (px player + fl (fl (tx - px player) * E t)) \<and>
            Y t = fl (py player + fl (fl (ty - py player) * E t))) \<and>
       X now = px player \<and> Y now = py player \<and>
       (\<forall>t. d \<le> fl (t - now) \<longrightarrow>
            E t = 1 \<and> X t = endX \<and> Y t = endY \<and> \<not> snd (animateDouble square a q t)) \<and>
       (fl (tx - px player) = tx - px player \<and> fl tx = tx \<longrightarrow> endX = tx) \<and>
       (fl (ty - py player) = ty - py player \<and> fl ty = ty \<longrightarrow> endY = ty) \<and>
       (\<forall>t. now \<le> t \<longrightarrow> 0 \<le> E t \<and> E t \<le> 1) \<and>
       (\<forall>t1 t2. t1 \<le> t2 \<longrightarrow> E t1 \<le> E t2) \<and>
       (\<forall>t1 t2. now \<le> t1 \<and> t1 \<le> t2 \<longrightarrow>
            toward (px player) (X t1) (X t2) endX \<and> toward (py player) (Y t1) (Y t2) endY)"
    using XY start fin exX exY rng mono tow by blast
  then show "let a = animatePlayerMove player tx ty d now;
        P = (\<lambda>t. min (fl (fl (t - now) / d)) 1);
        E = (\<lambda>t. fl (1 - square (fl (1 - P t))));
        X = (\<lambda>t. px (fst (animateDouble square a q t)));
        Y = (\<lambda>t. py (fst (animateDouble square a q t)));
        endX = fl (px player + fl (fl (tx - px player) * 1));
        endY = fl (py player + fl (fl (ty - py player) * 1))
    in (\<forall>t. X t = fl (px player + fl (fl (tx - px player) * E t)) \<and>
            Y t = fl (py player + fl (fl (ty - py player) * E t))) \<and>
       X now = px player \<and> Y now = py player \<and>
       (\<forall>t. d \<le> fl (t - now) \<longrightarrow>
            E t = 1 \<and> X t = endX \<and> Y t = endY \<and> \<not> snd (animateDouble square a q t)) \<and>
       (fl (tx - px player) = tx - px player \<and> fl tx = tx \<longrightarrow> endX = tx) \<and>
       (fl (ty - py player) = ty - py player \<and> fl ty = ty \<longrightarrow> endY = ty) \<and>
       (\<forall>t. now \<le> t \<longrightarrow> 0 \<le> E t \<and> E t \<le> 1) \<and>
       (\<forall>t1 t2. t1 \<le> t2 \<longrightarrow> E t1 \<le> E t2) \<and>
       (\<forall>t1 t2. now \<le> t1 \<and> t1 \<le> t2 \<longrightarrow>
            toward (px player) (X t1) (X t2) endX \<and> toward (py player) (Y t1) (Y t2) endY)"
    unfolding Let_def a_def P_def E_def X_def Y_def endX_def endY_def .
qed

text \<open>
  The witness is the motion from \<open>(100, 1000)\<close> to \<open>(200, 1100)\<close> over 300 ms, read at
  0, 100, 200 and 300 ms, with \<open>roundedSquare\<close> for \<open>Math.pow(b, 2)\<close> (it is
  non-decreasing by \<open>roundedSquare_mono\<close>); with these integer coordinates the target is
  reached exactly.
\<close>

theorem ease_out_motion_witness:
  "((0::real) < 300 \<and> fl 100 = 100 \<and> fl 1000 = 1000 \<and>
    roundedSquare 0 = 0 \<and> roundedSquare 1 = 1) \<and>
   (300::real) \<le> fl (300 - 0) \<and>
   (fl (200 - 100) = 200 - 100 \<and> fl 200 = 200) \<and>
   (fl (1100 - 1000) = 1100 - 1000 \<and> fl 1100 = 1100) \<and>
   ((0::real) \<le> 100 \<and> (100::real) \<le> 200) \<and>
   (let P = mkPlayer ''A2'' 100 1000 ''bg-blue-500'';
        a = animatePlayerMove P 200 1100 300 0;
        X = (\<lambda>t. px (fst (animateDouble roundedSquare a P t)));
        Y = (\<lambda>t. py (fst (animateDouble roundedSquare a P t)))
    in X 0 = 100 \<and> Y 0 = 1000 \<and> X 300 = 200 \<and> Y 300 = 1100 \<and>
       \<not> snd (animateDouble roundedSquare a P 300) \<and>
       toward 100 (X 100) (X 200) 200 \<and> toward 1000 (Y 100) (Y 200) 1100)"
proof -
  let ?P = "mkPlayer ''A2'' 100 1000 ''bg-blue-500''"
  have p: "px ?P = 100" "py ?P = 1000"
    by (simp_all add: mkPlayer_def)
  have h: "(0::real) < 300 \<and> fl (px ?P) = px ?P \<and> fl (py ?P) = py ?P \<and>
      roundedSquare 0 = 0 \<and> roundedSquare 1 = 1 \<and>
      (\<forall>b c. 0 \<le> b \<and> b \<le> c \<longrightarrow> roundedSquare b \<le> roundedSquare c)"
    by (simp add: p fl_100 fl_1000 roundedSquare_0 roundedSquare_1 roundedSquare_mono)
  have e: "(300::real) \<le> fl (300 - 0)"
    by (simp add: fl_300)
  have x: "fl (200 - px ?P) = 200 - px ?P \<and> fl 200 = 200"
    by (simp add: p fl_100 fl_200)
  have y: "fl (1100 - py ?P) = 1100 - py ?P \<and> fl 1100 = 1100"
    by (simp add: p fl_100 fl_1100)
  have t: "(0::real) \<le> 100 \<and> (100::real) \<le> 200" "(0::real) \<le> 0"
    by simp_all
  from h ease_out_motion [where d = 300 and player = ?P and square = roundedSquare and tx = 200
      and ty = 1100 and now = 0 and q = ?P]
  have "let a = animatePlayerMove ?P 200 1100 300 0;
        P = (\<lambda>t. min (fl (fl (t - 0) / 300)) 1);
        E = (\<lambda>t. fl (1 - roundedSquare (fl (1 - P t))));
        X = (\<lambda>t. px (fst (animateDouble roundedSquare a ?P t)));
        Y = (\<lambda>t. py (fst (animateDouble roundedSquare a ?P t)));
        endX = fl (px ?P + fl (fl (200 - px ?P) * 1));
        endY = fl (py ?P + fl (fl (1100 - py ?P) * 1))
    in (\<forall>t. X t = fl (px ?P + fl (fl (200 - px ?P) * E t)) \<and>
            Y t = fl (py ?P + fl (fl (1100 - py ?P) * E t))) \<and>
       X 0 = px ?P \<and> Y 0 = py ?P \<and>
       (\<forall>t. 300 \<le> fl (t - 0) \<longrightarrow>
            E t = 1 \<and> X t = endX \<and> Y t = endY \<and> \<not> snd (animateDouble roundedSquare a ?P t)) \<and>
       (fl (200 - px ?P) = 200 - px ?P \<and> fl 200 = 200 \<longrightarrow> endX = 200) \<and>
       (fl (1100 - py ?P) = 1100 - py ?P \<and> fl 1100 = 1100 \<longrightarrow> endY = 1100) \<and>
       (\<forall>t. 0 \<le> t \<longrightarrow> 0 \<le> E t \<and> E t \<le> 1) \<and>
       (\<forall>t1 t2. t1 \<le> t2 \<longrightarrow> E t1 \<le> E t2) \<and>
       (\<forall>t1 t2. 0 \<le> t1 \<and> t1 \<le> t2 \<longrightarrow>
            toward (px ?P) (X t1) (X t2) endX \<and> toward (py ?P) (Y t1) (Y t2) endY)"
    by blast
  then have
    "px (fst (animateDouble roundedSquare (animatePlayerMove ?P 200 1100 300 0) ?P 0)) = 100 \<and>
     py (fst (animateDouble roundedSquare (animatePlayerMove ?P 200 1100 300 0) ?P 0)) = 1000 \<and>
     px (fst (animateDouble roundedSquare (animatePlayerMove ?P 200 1100 300 0) ?P 300)) = 200 \<and>
     py (fst (animateDouble roundedSquare (animatePlayerMove ?P 200 1100 300 0) ?P 300)) = 1100 \<and>
     \<not> snd (animateDouble roundedSquare (animatePlayerMove ?P 200 1100 300 0) ?P 300) \<and>
     toward 100 (px (fst (animateDouble roundedSquare (animatePlayerMove ?P 200 1100 300 0) ?P 100)))
       (px (fst (animateDouble roundedSquare (animatePlayerMove ?P 200 1100 300 0) ?P 200))) 200 \<and>
     toward 1000 (py (fst (animateDouble roundedSquare (animatePlayerMove ?P 200 1100 300 0) ?P 100)))
       (py (fst (animateDouble roundedSquare (animatePlayerMove ?P 200 1100 300 0) ?P 200))) 1100"
    unfolding Let_def using e x y t p by metis
  then show ?thesis
    unfolding Let_def using h e x y t p by simp
qed

text \<open>
  A1 dropped at \<open>(305, 1200)\<close>: the solver's target for A2 has \<open>x = 5445 / 67\<close>, as a
  double \<open>81.26865671641791\<close>.
\<close>

lemma target_mid_court:
  "calculateOptimalPosition (mkPlayer ''A1'' 305 1200 ''bg-blue-500'') tm = (5445 / 67, 1815 / 2)"
proof -
  have t: "tacticalTarget (mkPlayer ''A1'' 305 1200 ''bg-blue-500'') = (45, 1815 / 2)"
    by (simp add: tacticalTarget_def Let_def mkPlayer_def COURT_WIDTH_def jsOr_def)
  have r: "calculateDefenseRadius (1815 / 2) = 10890 / 67"
    by (simp add: calculateDefenseRadius_eq)
  have "safetyClamp (45, 1815 / 2) = (5445 / 67, 1815 / 2)"
    by (simp add: safetyClamp_def Let_def r PLAYER_RADIUS_def COURT_WIDTH_def COURT_HEIGHT_def)
  then show ?thesis
    by (simp only: calculateOptimalPosition_def t)
qed

lemma fl_target: "fl (5445 / 67) = 5718773314140007 / 70368744177664"
  using fl_scaled [of "5445 / 67" 46] by (simp add: rne_def)

lemma fl_target_exact:
  "fl (5718773314140007 / 70368744177664) = 5718773314140007 / 70368744177664"
  using fl_scaled [of "5718773314140007 / 70368744177664" 46] by (simp add: rne_def)

lemma fl_difference:
  "fl (5718773314140007 / 70368744177664 - 460) = - (3331356125948179 / 8796093022208)"
proof -
  have "fl (26650849007585433 / 70368744177664) = 3331356125948179 / 8796093022208"
    using fl_scaled [of "26650849007585433 / 70368744177664" 44] by (simp add: rne_def)
  moreover have "(5718773314140007 / 70368744177664 - 460 :: real) =
      - (26650849007585433 / 70368744177664)"
    by simp
  ultimately show ?thesis
    by (simp only: fl_minus)
qed

lemma fl_difference_exact:
  "fl (- (3331356125948179 / 8796093022208)) = - (3331356125948179 / 8796093022208)"
  using fl_scaled [of "3331356125948179 / 8796093022208" 44] by (simp add: rne_def fl_minus)

lemma fl_arrival:
  "fl (460 + - (3331356125948179 / 8796093022208)) = 714846664267501 / 8796093022208"
  using fl_scaled [of "714846664267501 / 8796093022208" 46] by (simp add: rne_def)

lemma arrival_rounded:
  "px (fst (animateDouble roundedSquare
      (animatePlayerMove (mkPlayer ''A2'' 460 1050 ''bg-blue-500'')
         (5718773314140007 / 70368744177664) (1815 / 2) 400 0)
      (mkPlayer ''A2'' 460 1050 ''bg-blue-500'') 400)) = 714846664267501 / 8796093022208"
proof -
  let ?tm = "mkPlayer ''A2'' 460 1050 ''bg-blue-500''"
  have p: "progressDouble (animatePlayerMove ?tm (5718773314140007 / 70368744177664) (1815 / 2) 400 0) 400 = 1"
    by (rule progressDouble_done) (simp_all add: fl_400)
  have s: "px ?tm = 460"
    by (simp add: mkPlayer_def)
  show ?thesis
    unfolding animateDouble_px p s easeOutQuad_1 [of roundedSquare, OF roundedSquare_0] mult_1_right
      fl_difference fl_difference_exact
    by (rule fl_arrival)
qed

lemma fl_early: "fl (1975 / 2 - 1000) = - (25 / 2)"
proof -
  have "fl (25 / 2) = 25 / 2"
    using fl_scaled [of "25 / 2" 49] by (simp add: rne_def)
  moreover have "(1975 / 2 - 1000 :: real) = - (25 / 2)"
    by simp
  ultimately show ?thesis
    by (simp only: fl_minus)
qed

lemma fl_32nd: "fl (- (1 / 32)) = - (1 / 32)"
  using fl_scaled [of "1 / 32" 57] by (simp add: rne_def fl_minus)

lemma progress_early:
  "progressDouble (animatePlayerMove player tx ty 400 1000) (1975 / 2) = - (1 / 32)"
  unfolding progressDouble_at fl_early by (simp add: fl_32nd)

lemma fl_33_32: "fl (33 / 32) = 33 / 32"
  using fl_scaled [of "33 / 32" 52] by (simp add: rne_def)

lemma fl_1089_1024: "fl (1089 / 1024) = 1089 / 1024"
  using fl_scaled [of "1089 / 1024" 52] by (simp add: rne_def)

lemma fl_65_1024: "fl (- (65 / 1024)) = - (65 / 1024)"
  using fl_scaled [of "65 / 1024" 56] by (simp add: rne_def fl_minus)

lemma ease_early: "easeOutQuad roundedSquare (- (1 / 32)) = - (65 / 1024)"
proof -
  have b: "fl (1 - - (1 / 32)) = 33 / 32"
    using fl_33_32 by simp
  have q: "fl (33 / 32 * (33 / 32)) = 1089 / 1024"
    using fl_1089_1024 by simp
  have "fl (1 - 1089 / 1024) = - (65 / 1024)"
    using fl_65_1024 by simp
  then show ?thesis
    unfolding easeOutQuad_def roundedSquare_def b q .
qed

lemma fl_step: "fl (- (1625 / 64)) = - (1625 / 64)"
  using fl_scaled [of "1625 / 64" 48] by (simp add: rne_def fl_minus)

lemma fl_early_y: "fl (42215 / 64) = 42215 / 64"
  using fl_scaled [of "42215 / 64" 43] by (simp add: rne_def)

lemma early_frame_y:
  "py (fst (animateDouble roundedSquare (animatePlayerMove (mkPlayer ''A2'' 460 685 ''bg-blue-500'') 336 1085 400 1000)
      (mkPlayer ''A2'' 460 685 ''bg-blue-500'') (1975 / 2))) = 42215 / 64"
proof -
  have s: "py (mkPlayer ''A2'' 460 685 ''bg-blue-500'') = 685"
    by (simp add: mkPlayer_def)
  have d: "fl (1085 - 685) = 400"
    using fl_400 by simp
  have m: "fl (400 * - (65 / 1024)) = - (1625 / 64)"
    using fl_step by simp
  have "fl (685 + - (1625 / 64)) = 42215 / 64"
    using fl_early_y by simp
  then show ?thesis
    unfolding animateDouble_py progress_early ease_early s d m .
qed

text \<open>
  As stated, C8 fails twice. From \<open>x = 460\<close> to the double \<open>81.26865671641791\<close> the
  frame at elapsed time 400 of 400 ms is \<open>81.26865671641792\<close>, one unit in the last place
  off the target. And a frame 12.5 ms before the start time has the eased factor
  \<open>-65/1024\<close>: from \<open>y = 685\<close> it moves away from the target \<open>1085\<close>, to \<open>y = 659.609375\<close>.
\<close>

theorem ease_out_motion_counterexample:
  "fl (fst (calculateOptimalPosition (mkPlayer ''A1'' 305 1200 ''bg-blue-500'')
        (mkPlayer ''A2'' 460 1050 ''bg-blue-500''))) = 5718773314140007 / 70368744177664 \<and>
   fl (5718773314140007 / 70368744177664) = 5718773314140007 / 70368744177664 \<and>
   (400::real) \<le> fl (400 - 0) \<and>
   px (fst (animateDouble roundedSquare
      (animatePlayerMove (mkPlayer ''A2'' 460 1050 ''bg-blue-500'')
         (5718773314140007 / 70368744177664) (1815 / 2) 400 0)
      (mkPlayer ''A2'' 460 1050 ''bg-blue-500'') 400)) = 714846664267501 / 8796093022208 \<and>
   (714846664267501 / 8796093022208 :: real) \<noteq> 5718773314140007 / 70368744177664 \<and>
   easeOutQuad roundedSquare (progressDouble
      (animatePlayerMove (mkPlayer ''A2'' 460 685 ''bg-blue-500'') 336 1085 400 1000) (1975 / 2)) =
     - (65 / 1024) \<and>
   py (fst (animateDouble roundedSquare
      (animatePlayerMove (mkPlayer ''A2'' 460 685 ''bg-blue-500'') 336 1085 400 1000)
      (mkPlayer ''A2'' 460 685 ''bg-blue-500'') (1975 / 2))) = 42215 / 64 \<and>
   (42215 / 64 :: real) < 685"
  unfolding target_mid_court fst_conv arrival_rounded early_frame_y progress_early ease_early
  by (simp add: fl_target fl_target_exact fl_400)

section \<open>The animated teammate stays in its half\<close>












section \<open>The heatmap scan\<close>

lemma foldl_rows:
  "foldl (\<lambda>s y. foldl (\<lambda>s x. g x y s) s xs) s ys =
   foldl (\<lambda>s p. g (fst p) (snd p) s) s (concat (map (\<lambda>y. map (\<lambda>x. (x, y)) xs) ys))"
  by (induction ys arbitrary: s) (simp_all add: foldl_map)

lemma scanGrid_samples:
  "scanGrid teamA =
   foldl (\<lambda>s p. cellStep teamA (fst p) (snd p) s)
     \<lparr>maxDist = Fin 0, maxPoint = (0, 0), fills = []\<rparr> samples"
proof -
  have "scanRow teamA = (\<lambda>s y. foldl (\<lambda>s x. cellStep teamA x y s) s (forRange 0 COURT_WIDTH))"
    by (intro ext) (simp add: scanRow_def)
  then show ?thesis
    by (simp add: scanGrid_def samples_def foldl_rows)
qed

lemma forRange_rows: "forRange 670 1340 = 670 # forRange 680 1340"
  by (subst forRange.simps) (simp add: gridSize_def)

lemma forRange_columns: "forRange 0 COURT_WIDTH = 0 # forRange 10 COURT_WIDTH"
  by (subst forRange.simps) (simp add: gridSize_def COURT_WIDTH_def)

lemma samples_first: "\<exists>rest. samples = (0, 670) # rest"
  by (simp add: samples_def forRange_rows forRange_columns)

lemma jsLess_trans: "jsLess a b \<Longrightarrow> jsLess b c \<Longrightarrow> jsLess a c"
  by (cases a; cases b; cases c) simp_all

lemma jsLess_total: "\<not> jsLess a b \<Longrightarrow> jsLess (Fin c) b \<Longrightarrow> jsLess (Fin c) a"
  by (cases a; cases b) simp_all

lemma cellStep_maxDist:
  "maxDist (cellStep teamA x y s) =
     (if jsLess (maxDist s) (snd (evaluate teamA x y)) then snd (evaluate teamA x y) else maxDist s)"
  by (simp add: cellStep_def Let_def split: prod.splits)

lemma cellStep_maxPoint:
  "maxPoint (cellStep teamA x y s) =
     (if jsLess (maxDist s) (snd (evaluate teamA x y)) then (x, y) else maxPoint s)"
  by (simp add: cellStep_def Let_def split: prod.splits)

lemma cellStep_positive:
  "jsLess (Fin 0) (maxDist (cellStep teamA x y s)) =
     (jsLess (Fin 0) (maxDist s) \<or> jsLess (Fin 0) (snd (evaluate teamA x y)))"
  unfolding cellStep_maxDist
  by (auto intro: jsLess_trans jsLess_total)

lemma scan_positive:
  "jsLess (Fin 0) (maxDist (foldl (\<lambda>s p. cellStep teamA (fst p) (snd p) s) s ps)) =
     (jsLess (Fin 0) (maxDist s) \<or> (\<exists>p \<in> set ps. jsLess (Fin 0) (snd (evaluate teamA (fst p) (snd p)))))"
  by (induction ps arbitrary: s) (auto simp add: cellStep_positive)

lemma marker_None: "(marker s \<noteq> None) = jsLess (Fin 0) (maxDist s)"
  by (simp add: marker_def Let_def)

lemma marker_iff_sample:
  "(snd (updateHeatmap players) \<noteq> None) =
     (\<exists>p \<in> set samples.
        jsLess (Fin 0) (snd (evaluate (filter (\<lambda>p. startsWith (pid p) ''A'') players) (fst p) (snd p))))"
proof -
  have "(snd (updateHeatmap players) \<noteq> None) =
      jsLess (Fin 0) (maxDist (scanGrid (filter (\<lambda>p. startsWith (pid p) ''A'') players)))"
    by (simp only: updateHeatmap_def Let_def snd_conv marker_None)
  also have "\<dots> = (jsLess (Fin 0) (Fin 0) \<or> (\<exists>p \<in> set samples.
        jsLess (Fin 0) (snd (evaluate (filter (\<lambda>p. startsWith (pid p) ''A'') players) (fst p) (snd p)))))"
    by (simp only: scanGrid_samples scan_positive scan.simps)
  finally show ?thesis
    by simp
qed

lemma marker_bounds:
  assumes "marker s = Some (mx, my)"
  shows "30 \<le> mx \<and> mx \<le> 610 - 30 \<and> 670 + 30 \<le> my \<and> my \<le> 1340 - 30"
proof -
  have "mx = max 30 (min (fst (maxPoint s)) (COURT_WIDTH - 30))"
    and "my = max (670 + 30) (min (snd (maxPoint s)) (COURT_HEIGHT - 30))"
    using assms by (simp_all add: marker_def Let_def split: if_splits)
  then show ?thesis
    by (simp add: COURT_WIDTH_def COURT_HEIGHT_def)
qed

text \<open>
  Claim C7. Whenever a furthest-point marker is produced, for any list of players, its
  centre has \<open>x\<close> in \<open>[30, 610 - 30]\<close> and \<open>y\<close> in \<open>[670 + 30, 1340 - 30]\<close>.
\<close>

theorem furthest_marker_in_region:
  "snd (updateHeatmap players) = Some (mx, my) \<longrightarrow>
     30 \<le> mx \<and> mx \<le> 610 - 30 \<and> 670 + 30 \<le> my \<and> my \<le> 1340 - 30"
  by (auto simp add: updateHeatmap_def Let_def dest: marker_bounds)

lemma evalPlayers_positive:
  "jsLess (Fin 0) md \<Longrightarrow> \<forall>p \<in> set ps. x \<noteq> px p \<or> y \<noteq> py p \<Longrightarrow>
   jsLess (Fin 0) (snd (evalPlayers ps x y (mr, md)))"
proof (induction ps arbitrary: mr md)
  case Nil
  then show ?case by simp
next
  case (Cons p ps)
  have "x - px p \<noteq> 0 \<or> y - py p \<noteq> 0"
    using Cons.prems(2) by simp
  then have "0 < (x - px p) * (x - px p) + (y - py p) * (y - py p)"
    by (simp only: sum_squares_gt_zero_iff)
  then have d: "0 < sqrt ((x - px p) * (x - px p) + (y - py p) * (y - py p))"
    by simp
  have rest: "\<forall>p \<in> set ps. x \<noteq> px p \<or> y \<noteq> py p"
    using Cons.prems(2) by simp
  show ?case
    using Cons.prems(1) d by (simp add: Let_def Cons.IH [OF _ rest])
qed

lemma teamA_players0:
  "filter (\<lambda>p. startsWith (pid p) ''A'') (updateRadii players0) =
     updateRadii [mkPlayer ''A1'' 150 1050 ''bg-blue-500'', mkPlayer ''A2'' 460 1050 ''bg-blue-500'']"
  by (simp add: updateRadii_def players0_def mkPlayer_def startsWith_def)

lemma marker_players0: "snd (updateHeatmap (updateRadii players0)) \<noteq> None"
proof -
  obtain rest where s: "samples = (0, 670) # rest"
    using samples_first by blast
  have "jsLess (Fin 0) (snd (evaluate (filter (\<lambda>p. startsWith (pid p) ''A'') (updateRadii players0)) 0 670))"
    unfolding teamA_players0 evaluate_def
    by (rule evalPlayers_positive) (simp_all add: updateRadii_def mkPlayer_def)
  then show ?thesis
    unfolding marker_iff_sample s by simp
qed

text \<open>
  The witness is the board in its initial position, the radii computed: a marker is
  produced, since the first sample \<open>(0, 670)\<close> is at a positive distance from A1 and A2.
\<close>

theorem furthest_marker_in_region_witness:
  "\<exists>mx my. snd (updateHeatmap (updateRadii players0)) = Some (mx, my) \<and>
     30 \<le> mx \<and> mx \<le> 610 - 30 \<and> 670 + 30 \<le> my \<and> my \<le> 1340 - 30"
proof -
  obtain mx my where m: "snd (updateHeatmap (updateRadii players0)) = Some (mx, my)"
    using marker_players0 by fastforce
  with furthest_marker_in_region [of "updateRadii players0" mx my]
  show ?thesis
    by blast
qed

section \<open>The heatmap of an empty team\<close>

lemma evaluate_empty: "evaluate [] x y = (Infinity, Infinity)"
  by (simp add: evaluate_def)

lemma cellAlpha_Infinity: "cellAlpha Infinity = 0.5"
  by (simp add: cellAlpha_def heatAlpha_Infinity)

lemma empty_scan_fills:
  "fills (foldl (\<lambda>s p. cellStep [] (fst p) (snd p) s) s ps) =
     fills s @ map (\<lambda>p. \<lparr>rAlpha = 0.5, rX = fst p - 5, rY = snd p - 5, rW = 10, rH = 10\<rparr>) ps"
  by (induction ps arbitrary: s) (simp_all add: cellStep_fills evaluate_empty cellAlpha_Infinity)

lemma empty_scan_kept:
  "maxDist s = Infinity \<Longrightarrow>
   maxDist (foldl (\<lambda>s p. cellStep [] (fst p) (snd p) s) s ps) = Infinity \<and>
   maxPoint (foldl (\<lambda>s p. cellStep [] (fst p) (snd p) s) s ps) = maxPoint s"
  by (induction ps arbitrary: s) (simp_all add: cellStep_maxDist cellStep_maxPoint evaluate_empty)

lemma empty_scan_first:
  "maxDist (foldl (\<lambda>s p. cellStep [] (fst p) (snd p) s)
      \<lparr>maxDist = Fin 0, maxPoint = (0, 0), fills = []\<rparr> (c # ps)) = Infinity \<and>
   maxPoint (foldl (\<lambda>s p. cellStep [] (fst p) (snd p) s)
      \<lparr>maxDist = Fin 0, maxPoint = (0, 0), fills = []\<rparr> (c # ps)) = c"
proof -
  let ?s = "cellStep [] (fst c) (snd c) \<lparr>maxDist = Fin 0, maxPoint = (0, 0), fills = []\<rparr>"
  have "maxDist ?s = Infinity" "maxPoint ?s = c"
    by (simp_all add: cellStep_maxDist cellStep_maxPoint evaluate_empty)
  then show ?thesis
    using empty_scan_kept [of ?s ps] by simp
qed

lemma empty_team_fills:
  "fills (scanGrid []) =
     map (\<lambda>p. \<lparr>rAlpha = 0.5, rX = fst p - 5, rY = snd p - 5, rW = 10, rH = 10\<rparr>) samples"
  by (simp add: scanGrid_samples empty_scan_fills)

lemma empty_team_marker: "marker (scanGrid []) = Some (30, 700)"
proof -
  obtain rest where s: "samples = (0, 670) # rest"
    using samples_first by blast
  have "maxDist (scanGrid []) = Infinity \<and> maxPoint (scanGrid []) = (0, 670)"
    unfolding scanGrid_samples s by (rule empty_scan_first)
  then show ?thesis
    by (simp add: marker_def Let_def COURT_WIDTH_def COURT_HEIGHT_def)
qed

text \<open>
  Claim C1, amended. With an empty team, \<open>minRatio\<close> and \<open>minDist\<close> are \<open>+Infinity\<close>
  at every cell; as \<open>+Infinity\<close> exceeds 0.5 and 0, every sample point is painted, with
  alpha 0.5, and the marker is produced: at the first sample \<open>(0, 670)\<close>, clamped to
  \<open>(30, 700)\<close>. For any team, a marker is produced exactly when some sample has
  \<open>minDist > 0\<close>.
\<close>

theorem empty_team_heatmap:
  "(filter (\<lambda>p. startsWith (pid p) ''A'') players = [] \<longrightarrow>
      (\<forall>x y. evaluate (filter (\<lambda>p. startsWith (pid p) ''A'') players) x y = (Infinity, Infinity)) \<and>
      fst (updateHeatmap players) =
        map (\<lambda>p. \<lparr>rAlpha = 0.5, rX = fst p - 5, rY = snd p - 5, rW = 10, rH = 10\<rparr>) samples \<and>
      snd (updateHeatmap players) = Some (30, 700)) \<and>
   ((snd (updateHeatmap players) \<noteq> None) =
      (\<exists>p \<in> set samples.
         jsLess (Fin 0) (snd (evaluate (filter (\<lambda>p. startsWith (pid p) ''A'') players) (fst p) (snd p)))))"
proof (intro conjI impI)
  assume e: "filter (\<lambda>p. startsWith (pid p) ''A'') players = []"
  show "\<forall>x y. evaluate (filter (\<lambda>p. startsWith (pid p) ''A'') players) x y = (Infinity, Infinity)"
    unfolding e by (simp add: evaluate_empty)
  show "fst (updateHeatmap players) =
        map (\<lambda>p. \<lparr>rAlpha = 0.5, rX = fst p - 5, rY = snd p - 5, rW = 10, rH = 10\<rparr>) samples"
    unfolding updateHeatmap_def Let_def e fst_conv by (rule empty_team_fills)
  show "snd (updateHeatmap players) = Some (30, 700)"
    unfolding updateHeatmap_def Let_def e snd_conv by (rule empty_team_marker)
next
  show "(snd (updateHeatmap players) \<noteq> None) =
      (\<exists>p \<in> set samples.
         jsLess (Fin 0) (snd (evaluate (filter (\<lambda>p. startsWith (pid p) ''A'') players) (fst p) (snd p))))"
    by (rule marker_iff_sample)
qed

text \<open>
  As stated, C1 fails: with no player at all, cells are painted and a marker is
  produced.
\<close>

theorem empty_team_heatmap_counterexample:
  "fst (updateHeatmap []) \<noteq> [] \<and> snd (updateHeatmap []) \<noteq> None"
proof -
  obtain rest where s: "samples = (0, 670) # rest"
    using samples_first by blast
  have "fst (updateHeatmap []) \<noteq> []"
    by (simp add: updateHeatmap_def Let_def empty_team_fills s)
  moreover have "snd (updateHeatmap []) \<noteq> None"
    by (simp add: updateHeatmap_def Let_def empty_team_marker)
  ultimately show ?thesis
    by blast
qed

text \<open>The witness is a board with the two Team B players only.\<close>

theorem empty_team_heatmap_witness:
  "filter (\<lambda>p. startsWith (pid p) ''A'')
      [mkPlayer ''B1'' 150 200 ''bg-red-500'', mkPlayer ''B2'' 460 200 ''bg-red-500''] = [] \<and>
   (\<exists>rest. fst (updateHeatmap
      [mkPlayer ''B1'' 150 200 ''bg-red-500'', mkPlayer ''B2'' 460 200 ''bg-red-500'']) =
      \<lparr>rAlpha = 0.5, rX = - 5, rY = 665, rW = 10, rH = 10\<rparr> # rest) \<and>
   snd (updateHeatmap
      [mkPlayer ''B1'' 150 200 ''bg-red-500'', mkPlayer ''B2'' 460 200 ''bg-red-500'']) = Some (30, 700)"
proof -
  let ?ps = "[mkPlayer ''B1'' 150 200 ''bg-red-500'', mkPlayer ''B2'' 460 200 ''bg-red-500'']"
  obtain rest where s: "samples = (0, 670) # rest"
    using samples_first by blast
  have e: "filter (\<lambda>p. startsWith (pid p) ''A'') ?ps = []"
    by (simp add: mkPlayer_def startsWith_def)
  from e empty_team_heatmap [of ?ps]
  have "fst (updateHeatmap ?ps) =
        map (\<lambda>p. \<lparr>rAlpha = 0.5, rX = fst p - 5, rY = snd p - 5, rW = 10, rH = 10\<rparr>) samples"
    and m: "snd (updateHeatmap ?ps) = Some (30, 700)"
    by blast+
  then have "\<exists>rest. fst (updateHeatmap ?ps) = \<lparr>rAlpha = 0.5, rX = - 5, rY = 665, rW = 10, rH = 10\<rparr> # rest"
    by (simp add: s)
  with e m show ?thesis
    by blast
qed

end
